theory Spec2Isabelle
  imports Main
begin

section \<open>Library functions the extractor relies on\<close>

text \<open>
  The program calls \<^verbatim>\<open>os.path.basename\<close>, \<^verbatim>\<open>os.path.dirname\<close>,
  \<^verbatim>\<open>os.path.splitext\<close> and \<^verbatim>\<open>os.path.join\<close>. They are modelled after
  the POSIX flavour of the Python standard library (separator \<open>/\<close>).
\<close>

definition sep :: char where
  "sep = CHR ''/''"

definition basename :: "string \<Rightarrow> string" where
  \<comment> \<open>\<^verbatim>\<open>i = p.rfind('/') + 1; return p[i:]\<close>\<close>
  "basename p = rev (takeWhile (\<lambda>c. c \<noteq> sep) (rev p))"

definition dirname :: "string \<Rightarrow> string" where
  \<comment> \<open>\<^verbatim>\<open>head = p[:i]; if head and head != '/'*len(head): head = head.rstrip('/')\<close>\<close>
  "dirname p =
     (let head = rev (dropWhile (\<lambda>c. c \<noteq> sep) (rev p))
      in if head \<noteq> [] \<and> (\<exists>c \<in> set head. c \<noteq> sep)
         then rev (dropWhile (\<lambda>c. c = sep) (rev head))
         else head)"

definition splitext :: "string \<Rightarrow> string \<times> string" where
  \<comment> \<open>the extension starts at the last dot of the last component, unless only dots
      precede that dot in the component\<close>
  "splitext p =
     (let name = basename p;
          front = rev (dropWhile (\<lambda>c. c \<noteq> sep) (rev p));
          stem = rev (tl (dropWhile (\<lambda>c. c \<noteq> CHR ''.'') (rev name)));
          ext = rev (takeWhile (\<lambda>c. c \<noteq> CHR ''.'') (rev name))
      in if CHR ''.'' \<in> set name \<and> (\<exists>c \<in> set stem. c \<noteq> CHR ''.'')
         then (front @ stem, CHR ''.'' # ext)
         else (p, []))"

definition path_join :: "string \<Rightarrow> string \<Rightarrow> string" where
  \<comment> \<open>\<^verbatim>\<open>os.path.join(a, b)\<close> with two arguments\<close>
  "path_join a b =
     (if b \<noteq> [] \<and> hd b = sep then b
      else if a = [] \<or> last a = sep then a @ b
      else a @ [sep] @ b)"

fun startswith :: "string \<Rightarrow> string \<Rightarrow> bool" where
  "startswith s [] = True"
| "startswith [] (p # ps) = False"
| "startswith (c # cs) (p # ps) = (c = p \<and> startswith cs ps)"

definition endswith :: "string \<Rightarrow> string \<Rightarrow> bool" where
  "endswith s suf = startswith (rev s) (rev suf)"

fun contains :: "string \<Rightarrow> string \<Rightarrow> bool" where
  \<comment> \<open>\<^verbatim>\<open>sub in s\<close> on strings\<close>
  "contains sub [] = (sub = [])"
| "contains sub (c # cs) = (startswith (c # cs) sub \<or> contains sub cs)"

definition lower_char :: "char \<Rightarrow> char" where
  "lower_char c =
     (case map_of (zip ''ABCDEFGHIJKLMNOPQRSTUVWXYZ'' ''abcdefghijklmnopqrstuvwxyz'') c of
        Some l \<Rightarrow> l | None \<Rightarrow> c)"

definition lower :: "string \<Rightarrow> string" where
  \<comment> \<open>\<^verbatim>\<open>str.lower\<close> on file names written in ASCII: the letters A to Z are
      mapped, every other character is left as it is\<close>
  "lower s = map lower_char s"

definition digit :: "nat \<Rightarrow> char" where
  "digit d = ''0123456789'' ! d"

fun str_nat :: "nat \<Rightarrow> string" where
  "str_nat n = (if n < 10 then [digit n] else str_nat (n div 10) @ [digit (n mod 10)])"

declare str_nat.simps [simp del]

text \<open>A parsed JSON document, as \<^verbatim>\<open>json.loads\<close> returns it.\<close>

datatype json =
    JNull
  | JBool bool
  | JNum int
  | JStr string
  | JArr "json list"
  | JObj "(string \<times> json) list"

text \<open>The exceptions that matter: the two kinds the extractor catches by name, and the rest.\<close>

datatype exn =
    SubprocessError string
  | JSONDecodeError string
  | OSError string
  | TypeError string
  | AttributeError string

fun str_exn :: "exn \<Rightarrow> string" where
  "str_exn (SubprocessError m) = m"
| "str_exn (JSONDecodeError m) = m"
| "str_exn (OSError m) = m"
| "str_exn (TypeError m) = m"
| "str_exn (AttributeError m) = m"

section \<open>The output format table\<close>

record format_info =
  extension :: string
  ffmpeg_format :: string
  description :: string

definition SUBTITLE_FORMATS :: "(string \<times> format_info) list" where
  "SUBTITLE_FORMATS =
     [(''SRT'', \<lparr>extension = ''srt'', ffmpeg_format = ''srt'', description = ''SubRip Text''\<rparr>),
      (''VobSub'', \<lparr>extension = ''idx'', ffmpeg_format = ''dvdsub'', description = ''DVD Subtitles''\<rparr>),
      (''ASS'', \<lparr>extension = ''ass'', ffmpeg_format = ''ass'',
                description = ''Advanced SubStation Alpha''\<rparr>),
      (''WebVTT'', \<lparr>extension = ''vtt'', ffmpeg_format = ''webvtt'',
                   description = ''Web Video Text Tracks''\<rparr>)]"

section \<open>The extractor's state and its observable events\<close>

record extractor =
  cancel_flag :: bool
  total_streams :: nat
  processed_streams :: nat
  successful_extractions :: nat
  failed_extractions :: nat
  skipped_extractions :: nat

datatype cmd_arg =
    Arg string
  | MapStream json  \<comment> \<open>\<^verbatim>\<open>f"0:{stream_index}"\<close>\<close>

datatype event =
    Log string
  | MakeDirs string
  | PathExists string
  | RunFfprobe string
  | Popen "cmd_arg list"
  | Terminate
  | Wait
  | UiProgress nat nat string
  | FinishExtraction

text \<open>
  A trace lists what the program did, in order; each event comes with the extractor's
  state at the moment it was emitted.
\<close>

type_synonym trace = "(extractor \<times> event) list"

definition reset :: "extractor \<Rightarrow> extractor" where
  "reset st = st\<lparr>cancel_flag := False, total_streams := 0, processed_streams := 0,
                 successful_extractions := 0, failed_extractions := 0,
                 skipped_extractions := 0\<rparr>"

definition cancel :: "extractor \<Rightarrow> extractor \<times> trace" where
  "cancel st =
     (let st1 = st\<lparr>cancel_flag := True\<rparr>
      in (st1, [(st1, Log ''INFO: Cancellation requested. Waiting for current task to complete...'')]))"

text \<open>
  The cancel button lives on another thread. The environment says, for every point
  where the worker can observe it, whether \<open>cancel()\<close> has been called since the
  previous such point.
\<close>

definition gui_cancel :: "bool \<Rightarrow> extractor \<Rightarrow> extractor \<times> trace" where
  "gui_cancel pressed st = (if pressed then cancel st else (st, []))"

section \<open>Discovery of video files\<close>

definition video_extensions :: "string list" where
  "video_extensions = [''.mkv'', ''.mp4'', ''.avi'', ''.mov'', ''.wmv'', ''.flv'', ''.webm'']"

text \<open>
  \<^verbatim>\<open>os.walk(directory)\<close> is the environment's answer: the list of
  \<open>(root, files)\<close> pairs it yields for a directory, in order.
\<close>

type_synonym walk = "string \<Rightarrow> (string \<times> string list) list"

definition get_video_files :: "walk \<Rightarrow> string \<Rightarrow> string list" where
  "get_video_files os_walk directory =
     concat (map (\<lambda>(root, files).
        map (\<lambda>file. path_join root file)
            (filter (\<lambda>file. \<exists>e \<in> set video_extensions. endswith (lower file) e) files))
        (os_walk directory))"

section \<open>Probing a file for subtitle streams\<close>

record stream_info =
  index :: json
  codec_name :: json
  language :: json
  title :: json

text \<open>
  One call of \<^verbatim>\<open>ffprobe\<close>, as the environment answers it: \<open>run_raises\<close> is the
  exception \<^verbatim>\<open>subprocess.run\<close> raises, if any; \<open>stdout_json\<close> is what
  \<^verbatim>\<open>json.loads\<close> makes of the standard output (\<open>None\<close> when it is not JSON);
  \<open>cancel_during\<close> says whether the user pressed cancel while the probe ran.
\<close>

record probe_env =
  run_raises :: "exn option"
  stdout_json :: "json option"
  cancel_during :: bool

definition dict_get :: "(string \<times> json) list \<Rightarrow> string \<Rightarrow> json \<Rightarrow> json" where
  \<comment> \<open>\<^verbatim>\<open>d.get(k, default)\<close>\<close>
  "dict_get d k dflt = (case map_of d k of Some v \<Rightarrow> v | None \<Rightarrow> dflt)"

fun type_name :: "json \<Rightarrow> string" where
  \<comment> \<open>the name of the Python type of a parsed JSON value\<close>
  "type_name JNull = ''NoneType''"
| "type_name (JBool b) = ''bool''"
| "type_name (JNum n) = ''int''"
| "type_name (JStr s) = ''str''"
| "type_name (JArr xs) = ''list''"
| "type_name (JObj kvs) = ''dict''"

definition quoted :: "string \<Rightarrow> string" where
  \<comment> \<open>the string between single quotes\<close>
  "quoted s = [CHR 39] @ s @ [CHR 39]"

definition has_streams :: "json \<Rightarrow> exn + bool" where
  \<comment> \<open>\<^verbatim>\<open>'streams' in streams_data\<close>\<close>
  "has_streams d =
     (case d of
        JObj kvs \<Rightarrow> Inr (map_of kvs ''streams'' \<noteq> None)
      | JArr xs \<Rightarrow> Inr (JStr ''streams'' \<in> set xs)
      | JStr s \<Rightarrow> Inr (contains ''streams'' s)
      | _ \<Rightarrow> Inl (TypeError (''argument of type '' @ quoted (type_name d) @ '' is not iterable'')))"

definition streams_of :: "json \<Rightarrow> exn + json list" where
  \<comment> \<open>the values \<^verbatim>\<open>for stream in streams_data['streams']\<close> ranges over\<close>
  "streams_of d =
     (case d of
        JObj kvs \<Rightarrow>
          (case dict_get kvs ''streams'' JNull of
             JArr xs \<Rightarrow> Inr xs
           | JObj inner \<Rightarrow> Inr (map (\<lambda>(k, v). JStr k) inner)
           | JStr s \<Rightarrow> Inr (map (\<lambda>c. JStr [c]) s)
           | v \<Rightarrow> Inl (TypeError (quoted (type_name v) @ '' object is not iterable'')))
      | JArr xs \<Rightarrow> Inl (TypeError ''list indices must be integers or slices, not str'')
      | _ \<Rightarrow> Inl (TypeError (''string indices must be integers, not '' @ quoted ''str'')))"

definition no_get :: "json \<Rightarrow> exn" where
  \<comment> \<open>what \<^verbatim>\<open>x.get\<close> raises when \<open>x\<close> is not a dictionary\<close>
  "no_get x = AttributeError (quoted (type_name x) @ '' object has no attribute '' @ quoted ''get'')"

definition make_stream_info :: "json \<Rightarrow> exn + stream_info" where
  "make_stream_info stream =
     (case stream of
        JObj kvs \<Rightarrow>
          (case dict_get kvs ''tags'' (JObj []) of
             JObj tags \<Rightarrow>
               Inr \<lparr>index = dict_get kvs ''index'' JNull,
                    codec_name = dict_get kvs ''codec_name'' (JStr ''unknown''),
                    language = dict_get tags ''language'' (JStr ''und''),
                    title = dict_get tags ''title'' (JStr [])\<rparr>
           | tags \<Rightarrow> Inl (no_get tags))
      | _ \<Rightarrow> Inl (no_get stream))"

fun collect_streams :: "json list \<Rightarrow> exn + stream_info list" where
  "collect_streams [] = Inr []"
| "collect_streams (stream # rest) =
     (case make_stream_info stream of
        Inl e \<Rightarrow> Inl e
      | Inr info \<Rightarrow>
          (case collect_streams rest of
             Inl e \<Rightarrow> Inl e
           | Inr infos \<Rightarrow> Inr (info # infos)))"

definition parse_streams :: "json \<Rightarrow> exn + stream_info list" where
  "parse_streams streams_data =
     (case has_streams streams_data of
        Inl e \<Rightarrow> Inl e
      | Inr False \<Rightarrow> Inr []
      | Inr True \<Rightarrow>
          (case streams_of streams_data of
             Inl e \<Rightarrow> Inl e
           | Inr xs \<Rightarrow> collect_streams xs))"

definition probe_body :: "probe_env \<Rightarrow> exn + stream_info list" where
  \<comment> \<open>the \<^verbatim>\<open>try\<close> block of \<^verbatim>\<open>get_subtitle_streams\<close>\<close>
  "probe_body penv =
     (case run_raises penv of
        Some e \<Rightarrow> Inl e
      | None \<Rightarrow>
          (case stdout_json penv of
             None \<Rightarrow> Inl (JSONDecodeError ''Expecting value'')
           | Some streams_data \<Rightarrow> parse_streams streams_data))"

definition get_subtitle_streams ::
  "probe_env \<Rightarrow> string \<Rightarrow> extractor \<Rightarrow> (exn + stream_info list) \<times> extractor \<times> trace" where
  "get_subtitle_streams penv video_file st =
     (let (st1, t1) = gui_cancel (cancel_during penv) st;
          t0 = [(st, RunFfprobe video_file)] @ t1
      in case probe_body penv of
           Inl (SubprocessError m) \<Rightarrow>
             (Inr [], st1,
              t0 @ [(st1, Log (''ERROR: Failed to get subtitle streams from '' @
                               basename video_file @ '': '' @ m))])
         | Inl (JSONDecodeError m) \<Rightarrow>
             (Inr [], st1,
              t0 @ [(st1, Log (''ERROR: Failed to parse ffprobe output for '' @
                               basename video_file))])
         | Inl e \<Rightarrow> (Inl e, st1, t0)
         | Inr subtitle_streams \<Rightarrow> (Inr subtitle_streams, st1, t0))"

section \<open>Extracting one stream\<close>

text \<open>
  One call of \<^verbatim>\<open>extract_subtitle\<close>, as the environment answers it: whether
  \<^verbatim>\<open>os.makedirs\<close> and \<^verbatim>\<open>subprocess.Popen\<close> raise, whether the output file
  exists, the lines \<^verbatim>\<open>ffmpeg\<close> writes to its standard error (each with the
  information whether cancel was pressed by the time the line has been read), whether
  cancel was pressed while waiting for the process, and the process's return code.
\<close>

record extract_env =
  makedirs_raises :: "exn option"
  path_exists :: bool
  popen_raises :: "exn option"
  stderr_lines :: "(string \<times> bool) list"
  cancel_during_wait :: bool
  return_code :: int

definition video_basename_of :: "string \<Rightarrow> string" where
  "video_basename_of video_file = fst (splitext (basename video_file))"

definition output_dir_of :: "string \<Rightarrow> string option \<Rightarrow> string" where
  "output_dir_of video_file output_dir =
     (case output_dir of None \<Rightarrow> dirname video_file | Some d \<Rightarrow> d)"

definition output_file_of :: "string \<Rightarrow> string \<Rightarrow> string \<Rightarrow> string option \<Rightarrow> string" where
  "output_file_of video_file lang ext output_dir =
     path_join (output_dir_of video_file output_dir)
       (video_basename_of video_file @ ''.'' @ lang @ ''.'' @ ext)"

fun read_stderr ::
  "(string \<times> bool) list \<Rightarrow> string list \<Rightarrow> extractor \<Rightarrow> bool \<times> string list \<times> extractor \<times> trace" where
  \<comment> \<open>the loop over \<^verbatim>\<open>process.stderr\<close>; the first component tells whether it left
      through the cancel branch\<close>
  "read_stderr [] stderr_acc st = (False, stderr_acc, st, [])"
| "read_stderr ((line, pressed) # rest) stderr_acc st =
     (let (st1, t1) = gui_cancel pressed st;
          acc1 = stderr_acc @ [line]
      in if cancel_flag st1 then (True, acc1, st1, t1 @ [(st1, Terminate)])
         else (let (c, acc2, st2, t2) = read_stderr rest acc1 st1
               in (c, acc2, st2, t1 @ t2)))"

definition after_wait ::
  "int \<Rightarrow> string list \<Rightarrow> string \<Rightarrow> string \<Rightarrow> extractor \<Rightarrow> bool \<times> extractor \<times> string" where
  \<comment> \<open>what follows \<^verbatim>\<open>process.wait()\<close>: the returned value, the counters and the
      message logged (the message is logged before the counters change)\<close>
  "after_wait rc lines tag output_format st =
     (if rc \<noteq> 0
      then
        (let error_output = concat lines
         in if contains ''Unknown encoder'' error_output
            then (False, st\<lparr>failed_extractions := failed_extractions st + 1\<rparr>,
                  ''ERROR: Format mismatch or unsupported format for '' @ tag)
            else if contains ''Output file exists'' error_output
            then (False,
                  st\<lparr>skipped_extractions := skipped_extractions st + 1,
                     failed_extractions := failed_extractions st + 1\<rparr>,
                  ''SKIPPED: Subtitle file already exists for '' @ tag)
            else (False, st\<lparr>failed_extractions := failed_extractions st + 1\<rparr>,
                  ''ERROR: Failed to extract subtitle from '' @ tag))
      else (True, st\<lparr>successful_extractions := successful_extractions st + 1\<rparr>,
            ''SUCCESS: Extracted '' @ output_format @ '' subtitle for '' @ tag))"

definition run_ffmpeg ::
  "extract_env \<Rightarrow> cmd_arg list \<Rightarrow> string \<Rightarrow> string \<Rightarrow> string \<Rightarrow> extractor
     \<Rightarrow> (exn + bool) \<times> extractor \<times> trace" where
  \<comment> \<open>the \<^verbatim>\<open>try\<close> block of \<^verbatim>\<open>extract_subtitle\<close> with its handler\<close>
  "run_ffmpeg env cmd video_basename lang output_format st =
     (let t0 = [(st, Popen cmd)];
          tag = video_basename @ '' ['' @ lang @ '']''
      in case popen_raises env of
           Some (SubprocessError m) \<Rightarrow>
             (Inr False, st\<lparr>failed_extractions := failed_extractions st + 1\<rparr>,
              t0 @ [(st, Log (''ERROR: Failed to run ffmpeg for '' @ tag @ '': '' @ m))])
         | Some e \<Rightarrow> (Inl e, st, t0)
         | None \<Rightarrow>
             (let (cancelled, lines, st1, t1) = read_stderr (stderr_lines env) [] st
              in if cancelled
                 then (Inr False, st1,
                       t0 @ t1 @ [(st1, Log (''CANCELLED: Extraction cancelled for '' @ tag))])
                 else
                   (let (st2, t2) = gui_cancel (cancel_during_wait env) st1;
                        (ok, st3, msg) = after_wait (return_code env) lines tag output_format st2
                    in (Inr ok, st3, t0 @ t1 @ [(st1, Wait)] @ t2 @ [(st2, Log msg)]))))"

definition ffmpeg_cmd :: "bool \<Rightarrow> string \<Rightarrow> json \<Rightarrow> string \<Rightarrow> string \<Rightarrow> cmd_arg list" where
  "ffmpeg_cmd overwrite video_file stream_index fmt output_file =
     [Arg ''ffmpeg'', Arg ''-loglevel'', Arg ''warning'',
      Arg (if overwrite then ''-y'' else ''-n''),
      Arg ''-i'', Arg video_file, Arg ''-map'', MapStream stream_index,
      Arg ''-c:s'', Arg fmt, Arg output_file]"

definition extract_subtitle ::
  "extract_env \<Rightarrow> string \<Rightarrow> json \<Rightarrow> string \<Rightarrow> string \<Rightarrow> string option \<Rightarrow> bool \<Rightarrow> extractor
     \<Rightarrow> (exn + bool) \<times> extractor \<times> trace" where
  "extract_subtitle env video_file stream_index lang output_format output_dir overwrite st =
     (let video_basename = video_basename_of video_file;
          out_dir = output_dir_of video_file output_dir;
          t0 = [(st, MakeDirs out_dir)]
      in case makedirs_raises env of
           Some e \<Rightarrow> (Inl e, st, t0)
         | None \<Rightarrow>
             (case map_of SUBTITLE_FORMATS output_format of
                None \<Rightarrow>
                  (Inr False, st\<lparr>failed_extractions := failed_extractions st + 1\<rparr>,
                   t0 @ [(st, Log (''ERROR: Unsupported format '' @ output_format))])
              | Some info \<Rightarrow>
                  (let output_file = output_file_of video_file lang (extension info) output_dir;
                       t1 = t0 @ [(st, PathExists output_file)]
                   in if path_exists env \<and> \<not> overwrite
                      then (Inr False, st\<lparr>skipped_extractions := skipped_extractions st + 1\<rparr>,
                            t1 @ [(st, Log (''SKIPPED: Subtitle file already exists for '' @
                                            video_basename @ '' ['' @ lang @ '']''))])
                      else
                        (let cmd = ffmpeg_cmd overwrite video_file stream_index
                                     (ffmpeg_format info) output_file;
                             (r, st1, t2) = run_ffmpeg env cmd video_basename lang output_format st
                         in (r, st1, t1 @ t2)))))"

section \<open>A whole run\<close>

text \<open>
  The environment of a run: the directory walker, the answer to the \<open>i\<close>-th probe and
  to the \<open>j\<close>-th extraction call of the run (counted from 0), and the state of the
  overwrite checkbox (\<^verbatim>\<open>self.overwrite_var.get()\<close>, taken to stay as it is
  during a run).
\<close>

record run_env =
  os_walk :: walk
  probes :: "nat \<Rightarrow> probe_env"
  extracts :: "nat \<Rightarrow> extract_env"
  overwrite_var :: bool

type_synonym task = "string \<times> stream_info"

fun scan_loop ::
  "(nat \<Rightarrow> probe_env) \<Rightarrow> string \<Rightarrow> nat \<Rightarrow> nat \<Rightarrow> string list \<Rightarrow> task list \<Rightarrow> extractor
     \<Rightarrow> (exn + task list) \<times> extractor \<times> trace" where
  "scan_loop pr lang n_files i [] subtitle_streams st = (Inr subtitle_streams, st, [])"
| "scan_loop pr lang n_files i (video_file # rest) subtitle_streams st =
     (if cancel_flag st then (Inr subtitle_streams, st, [])
      else case get_subtitle_streams (pr i) video_file st of
             (Inl e, st1, t1) \<Rightarrow> (Inl e, st1, t1)
           | (Inr streams, st1, t1) \<Rightarrow>
               (let matching_streams =
                      map (\<lambda>stream. (video_file, stream))
                          (filter (\<lambda>stream. language stream = JStr lang) streams);
                    found = subtitle_streams @ matching_streams;
                    t2 = t1 @ [(st1, UiProgress (length found) n_files
                                       (''Scanning: '' @ basename video_file))];
                    (r, st2, t3) = scan_loop pr lang n_files (Suc i) rest found st1
                in (r, st2, t2 @ t3)))"

fun extract_loop ::
  "(nat \<Rightarrow> extract_env) \<Rightarrow> string \<Rightarrow> string \<Rightarrow> string option \<Rightarrow> bool \<Rightarrow> nat \<Rightarrow> task list
     \<Rightarrow> extractor \<Rightarrow> (exn + unit) \<times> extractor \<times> trace" where
  "extract_loop ex lang output_format output_dir overwrite j [] st = (Inr (), st, [])"
| "extract_loop ex lang output_format output_dir overwrite j ((video_file, stream) # rest) st =
     (if cancel_flag st then (Inr (), st, [])
      else case extract_subtitle (ex j) video_file (index stream) lang output_format
                  output_dir overwrite st of
             (Inl e, st1, t1) \<Rightarrow> (Inl e, st1, t1)
           | (Inr ok, st1, t1) \<Rightarrow>
               (let st2 = st1\<lparr>processed_streams := processed_streams st1 + 1\<rparr>;
                    t2 = t1 @ [(st2, UiProgress (processed_streams st2) (total_streams st2)
                                       (''Extracting: '' @ basename video_file))];
                    (r, st3, t3) = extract_loop ex lang output_format output_dir overwrite
                                     (Suc j) rest st2
                in (r, st3, t2 @ t3)))"

definition all_video_files :: "walk \<Rightarrow> string list \<Rightarrow> string list" where
  \<comment> \<open>\<^verbatim>\<open>for directory in directories: video_files.extend(get_video_files(directory))\<close>\<close>
  "all_video_files w directories = concat (map (get_video_files w) directories)"

definition run_body ::
  "run_env \<Rightarrow> string list \<Rightarrow> string \<Rightarrow> string \<Rightarrow> string option \<Rightarrow> extractor
     \<Rightarrow> (exn + unit) \<times> extractor \<times> trace" where
  \<comment> \<open>the \<^verbatim>\<open>try\<close> block of \<^verbatim>\<open>run_extraction\<close>\<close>
  "run_body env directories lang output_format output_dir st =
     (let video_files = all_video_files (os_walk env) directories
      in if video_files = []
         then (Inr (), st,
               [(st, Log ''No video files found in the selected directories.''),
                (st, FinishExtraction)])
         else
           (let t0 = [(st, Log (''Found '' @ str_nat (length video_files) @ '' video files.''))]
            in case scan_loop (probes env) lang (length video_files) 0 video_files [] st of
                 (Inl e, st1, t1) \<Rightarrow> (Inl e, st1, t0 @ t1)
               | (Inr subtitle_streams, st1, t1) \<Rightarrow>
                   (let st2 = st1\<lparr>total_streams := length subtitle_streams\<rparr>
                    in if subtitle_streams \<noteq> []
                       then
                         (let t2 = t0 @ t1 @
                                [(st2, Log (''Found '' @ str_nat (length subtitle_streams) @
                                     '' subtitle streams matching language '' @ [CHR 39] @ lang @
                                     [CHR 39] @ ''.''))];
                              st3 = st2\<lparr>processed_streams := 0\<rparr>
                          in case extract_loop (extracts env) lang output_format output_dir
                                    (overwrite_var env) 0 subtitle_streams st3 of
                               (Inl e, st4, t3) \<Rightarrow> (Inl e, st4, t2 @ t3)
                             | (Inr u, st4, t3) \<Rightarrow>
                                 (Inr (), st4,
                                  t2 @ t3 @
                                  [(st4, Log (if cancel_flag st4
                                              then ''Extraction cancelled by user.''
                                              else ''Extraction process completed.''))]))
                       else (Inr (), st2,
                             t0 @ t1 @
                             [(st2, Log (''No subtitle streams found matching language '' @
                                   [CHR 39] @ lang @ [CHR 39] @ ''.'')),
                              (st2, FinishExtraction)]))))"

definition run_extraction ::
  "run_env \<Rightarrow> string list \<Rightarrow> string \<Rightarrow> string \<Rightarrow> string option \<Rightarrow> extractor
     \<Rightarrow> extractor \<times> trace" where
  \<comment> \<open>the handler \<^verbatim>\<open>except Exception\<close> and the \<^verbatim>\<open>finally\<close> clause around the body\<close>
  "run_extraction env directories lang output_format output_dir st =
     (case run_body env directories lang output_format output_dir st of
        (Inl e, st1, t) \<Rightarrow>
          (st1, t @ [(st1, Log (''ERROR: An unexpected error occurred: '' @ str_exn e)),
                     (st1, FinishExtraction)])
      | (Inr u, st1, t) \<Rightarrow> (st1, t @ [(st1, FinishExtraction)]))"

subsection \<open>Reading a trace\<close>

definition events :: "trace \<Rightarrow> event list" where
  "events t = map snd t"

fun is_probe :: "event \<Rightarrow> bool" where
  "is_probe (RunFfprobe f) = True"
| "is_probe e = False"

fun is_popen :: "event \<Rightarrow> bool" where
  "is_popen (Popen c) = True"
| "is_popen e = False"

fun is_makedirs :: "event \<Rightarrow> bool" where
  "is_makedirs (MakeDirs d) = True"
| "is_makedirs e = False"

fun is_progress :: "event \<Rightarrow> bool" where
  "is_progress (UiProgress c n m) = True"
| "is_progress e = False"

definition probed_files :: "trace \<Rightarrow> string list" where
  "probed_files t = concat (map (\<lambda>e. case e of RunFfprobe f \<Rightarrow> [f] | _ \<Rightarrow> []) (events t))"

definition outcome_sum :: "extractor \<Rightarrow> nat" where
  "outcome_sum st = successful_extractions st + failed_extractions st + skipped_extractions st"

subsection \<open>Notions used in the statements\<close>

definition counters :: "extractor \<Rightarrow> nat \<times> nat \<times> nat \<times> nat \<times> nat" where
  "counters st = (total_streams st, processed_streams st, successful_extractions st,
                  failed_extractions st, skipped_extractions st)"

fun quiet :: "event \<Rightarrow> bool" where
  \<comment> \<open>events that start no subprocess and create nothing\<close>
  "quiet (Log m) = True"
| "quiet Terminate = True"
| "quiet Wait = True"
| "quiet e = False"

definition exit_exists_race :: "extract_env \<Rightarrow> bool" where
  \<comment> \<open>the tool exits with an error and reports that the output file exists\<close>
  "exit_exists_race env =
     (return_code env \<noteq> 0 \<and>
      \<not> contains ''Unknown encoder'' (concat (map fst (stderr_lines env))) \<and>
      contains ''Output file exists'' (concat (map fst (stderr_lines env))))"

definition pressed_while_streaming :: "extract_env \<Rightarrow> bool" where
  "pressed_while_streaming env = list_ex snd (stderr_lines env)"

definition probe_escapes :: "probe_env \<Rightarrow> bool" where
  \<comment> \<open>the probe raises an exception that \<^verbatim>\<open>get_subtitle_streams\<close> does not catch\<close>
  "probe_escapes penv =
     (case probe_body penv of
        Inl (SubprocessError m) \<Rightarrow> False
      | Inl (JSONDecodeError m) \<Rightarrow> False
      | Inl e \<Rightarrow> True
      | Inr ss \<Rightarrow> False)"

definition probe_streams :: "probe_env \<Rightarrow> stream_info list" where
  \<comment> \<open>the streams a probe hands to the scan\<close>
  "probe_streams penv = (case probe_body penv of Inr ss \<Rightarrow> ss | Inl e \<Rightarrow> [])"

definition matches :: "probe_env \<Rightarrow> string \<Rightarrow> nat" where
  "matches penv lang = length (filter (\<lambda>stream. language stream = JStr lang) (probe_streams penv))"

definition found_between :: "(nat \<Rightarrow> probe_env) \<Rightarrow> string \<Rightarrow> nat \<Rightarrow> nat \<Rightarrow> nat" where
  \<comment> \<open>the number of tasks that the probes \<open>i, \<dots>, k - 1\<close> yield\<close>
  "found_between pr lang i k = sum_list (map (\<lambda>q. matches (pr q) lang) [i..<k])"

definition within :: "extractor \<Rightarrow> nat \<Rightarrow> extractor \<Rightarrow> bool" where
  "within st k s = (total_streams s = total_streams st \<and> processed_streams st \<le> processed_streams s
      \<and> processed_streams s \<le> processed_streams st + k)"

definition at_most_one_each :: "extractor \<Rightarrow> extractor \<Rightarrow> bool" where
  "at_most_one_each st s = (outcome_sum s + processed_streams st \<le> outcome_sum st + processed_streams s)"

definition one_each :: "extractor \<Rightarrow> extractor \<Rightarrow> bool" where
  "one_each st s = (outcome_sum s + processed_streams st = outcome_sum st + processed_streams s)"

section \<open>Example environments\<close>

text \<open>Concrete environments, states and runs referred to by the examples.\<close>

definition probe_ok :: "json \<Rightarrow> probe_env" where
  "probe_ok j = \<lparr>run_raises = None, stdout_json = Some j, cancel_during = False\<rparr>"

definition eng_heb :: json where
  "eng_heb = JObj [(''streams'',
     JArr [JObj [(''index'', JNum 2), (''codec_name'', JStr ''subrip''),
                 (''tags'', JObj [(''language'', JStr ''eng'')])],
           JObj [(''index'', JNum 3), (''codec_name'', JStr ''subrip''),
                 (''tags'', JObj [(''language'', JStr ''heb'')])]])]"

definition ffmpeg_ok :: extract_env where
  "ffmpeg_ok = \<lparr>makedirs_raises = None, path_exists = False, popen_raises = None,
                stderr_lines = [], cancel_during_wait = False, return_code = 0\<rparr>"

definition init :: extractor where
  "init = \<lparr>cancel_flag = False, total_streams = 0, processed_streams = 0,
           successful_extractions = 0, failed_extractions = 0, skipped_extractions = 0\<rparr>"

definition one_file :: walk where
  "one_file d = (if d = ''/v'' then [(''/v'', [''a.mkv'', ''notes.txt''])] else [])"

definition env_ok :: run_env where
  "env_ok = \<lparr>os_walk = one_file, probes = (\<lambda>i. probe_ok eng_heb),
             extracts = (\<lambda>j. ffmpeg_ok), overwrite_var = False\<rparr>"

definition exists_env :: extract_env where
  "exists_env = ffmpeg_ok\<lparr>path_exists := True\<rparr>"

definition cancel_env :: extract_env where
  "cancel_env = ffmpeg_ok\<lparr>stderr_lines := [(''frame=1'', True), (''frame=2'', False)]\<rparr>"

definition s_done :: extractor where
  "s_done = \<lparr>cancel_flag = False, total_streams = 1, processed_streams = 1,
              successful_extractions = 1, failed_extractions = 0, skipped_extractions = 0\<rparr>"

definition s_raced :: extractor where
  "s_raced = \<lparr>cancel_flag = False, total_streams = 1, processed_streams = 1,
               successful_extractions = 0, failed_extractions = 1, skipped_extractions = 1\<rparr>"

definition s_cancelled :: extractor where
  "s_cancelled = \<lparr>cancel_flag = True, total_streams = 1, processed_streams = 1,
                   successful_extractions = 0, failed_extractions = 0, skipped_extractions = 0\<rparr>"

definition race_env :: extract_env where
  "race_env = ffmpeg_ok\<lparr>stderr_lines := [(''Output file exists'', False)], return_code := 1\<rparr>"

definition env_race :: run_env where
  "env_race = env_ok\<lparr>extracts := (\<lambda>j. race_env)\<rparr>"

definition env_cancel :: run_env where
  "env_cancel = env_ok\<lparr>extracts := (\<lambda>j. cancel_env)\<rparr>"

definition nested_walk :: walk where
  \<comment> \<open>a root directory whose only video lies in its subdirectory\<close>
  "nested_walk d =
     (if d = ''/v'' then [(''/v'', []), (''/v/s'', [''a.mkv''])]
      else if d = ''/v/s'' then [(''/v/s'', [''a.mkv''])]
      else [])"

definition env_nested :: run_env where
  "env_nested = env_ok\<lparr>os_walk := nested_walk\<rparr>"

definition init_cancelled :: extractor where
  "init_cancelled = init\<lparr>cancel_flag := True\<rparr>"

definition two_files :: walk where
  "two_files d = (if d = ''/v'' then [(''/v'', [''a.mkv'', ''b.mkv''])] else [])"

definition env_two :: run_env where
  "env_two = env_ok\<lparr>os_walk := two_files\<rparr>"

definition probe_oserror :: probe_env where
  \<comment> \<open>the inspection tool cannot be started\<close>
  "probe_oserror = \<lparr>run_raises = Some (OSError ''[Errno 2] No such file or directory: ffprobe''),
                    stdout_json = None, cancel_during = False\<rparr>"

definition probe_badshape :: probe_env where
  \<comment> \<open>the tool prints JSON, but a stream entry is not an object\<close>
  "probe_badshape = probe_ok (JObj [(''streams'', JArr [JNum 5])])"

definition probe_nojson :: probe_env where
  \<comment> \<open>the tool prints something that is not JSON\<close>
  "probe_nojson = \<lparr>run_raises = None, stdout_json = None, cancel_during = False\<rparr>"

definition env_oserror :: run_env where
  "env_oserror = env_two\<lparr>probes := (\<lambda>i. if i = 0 then probe_oserror else probe_ok eng_heb)\<rparr>"

definition env_badshape :: run_env where
  "env_badshape = env_two\<lparr>probes := (\<lambda>i. if i = 0 then probe_badshape else probe_ok eng_heb)\<rparr>"

definition env_nojson :: run_env where
  "env_nojson = env_two\<lparr>probes := (\<lambda>i. if i = 0 then probe_nojson else probe_ok eng_heb)\<rparr>"

section \<open>Facts about one extraction call\<close>

lemma quiet_iff: "quiet e = (e = Terminate \<or> e = Wait \<or> (\<exists>m. e = Log m))"
  by (cases e) auto

lemma gui_cancel_counters: "gui_cancel c st = (st1, t) \<Longrightarrow> counters st1 = counters st"
  by (auto simp: gui_cancel_def cancel_def counters_def Let_def split: if_splits)

lemma gui_cancel_flag: "gui_cancel c st = (st1, t) \<Longrightarrow> cancel_flag st1 = (c \<or> cancel_flag st)"
  by (auto simp: gui_cancel_def cancel_def Let_def split: if_splits)

lemma gui_cancel_trace:
  "gui_cancel c st = (st1, t) \<Longrightarrow> (s, e) \<in> set t \<Longrightarrow> s = st1 \<and> (\<exists>m. e = Log m)"
  by (auto simp: gui_cancel_def cancel_def Let_def split: if_splits)

lemma read_stderr_cancelled:
  "fst (read_stderr ls acc st) = (ls \<noteq> [] \<and> (cancel_flag st \<or> (\<exists>lc \<in> set ls. snd lc)))"
proof (induction ls arbitrary: acc st)
  case Nil
  show ?case by simp
next
  case (Cons a ls)
  obtain line pressed where a: "a = (line, pressed)" by (cases a)
  obtain st1 t1 where g: "gui_cancel pressed st = (st1, t1)" by (cases "gui_cancel pressed st")
  have f: "cancel_flag st1 = (pressed \<or> cancel_flag st)" using gui_cancel_flag[OF g] .
  show ?case
  proof (cases "cancel_flag st1")
    case True
    then show ?thesis using a g f by auto
  next
    case False
    then have "fst (read_stderr (a # ls) acc st) = fst (read_stderr ls (acc @ [line]) st1)"
      using a g by (simp split: prod.splits)
    also have "\<dots> = (ls \<noteq> [] \<and> (cancel_flag st1 \<or> (\<exists>lc \<in> set ls. snd lc)))"
      by (rule Cons.IH)
    finally show ?thesis using False f a by auto
  qed
qed

lemma read_stderr_state:
  "read_stderr ls acc st = (c, acc', st', t) \<Longrightarrow>
     counters st' = counters st \<and> (cancel_flag st \<longrightarrow> cancel_flag st') \<and> (c \<longrightarrow> cancel_flag st')
     \<and> (\<not> c \<longrightarrow> acc' = acc @ map fst ls)
     \<and> (\<forall>(s, e) \<in> set t. counters s = counters st \<and> quiet e)"
proof (induction ls arbitrary: acc st c acc' st' t)
  case Nil
  then show ?case by simp
next
  case (Cons a ls)
  obtain line pressed where a: "a = (line, pressed)" by (cases a)
  obtain st1 t1 where g: "gui_cancel pressed st = (st1, t1)" by (cases "gui_cancel pressed st")
  note gc = gui_cancel_counters[OF g] and gf = gui_cancel_flag[OF g] and gt = gui_cancel_trace[OF g]
  show ?case
  proof (cases "cancel_flag st1")
    case True
    then have "c = True" "st' = st1" "t = t1 @ [(st1, Terminate)]"
      using Cons.prems a g by auto
    then show ?thesis using True gc gf gt by (auto simp: quiet_iff)
  next
    case False
    obtain c2 acc2 st2 t2 where r: "read_stderr ls (acc @ [line]) st1 = (c2, acc2, st2, t2)"
      by (cases "read_stderr ls (acc @ [line]) st1") auto
    from Cons.prems a g False r have eq: "c = c2" "st' = st2" "t = t1 @ t2" "acc' = acc2"
      by auto
    from Cons.IH[OF r] have ih: "counters st2 = counters st1" "c2 \<longrightarrow> cancel_flag st2"
      "\<not> c2 \<longrightarrow> acc2 = (acc @ [line]) @ map fst ls"
      "\<forall>(s, e) \<in> set t2. counters s = counters st1 \<and> quiet e"
      by auto
    show ?thesis using eq ih gc gf gt False a by (auto simp: quiet_iff)
  qed
qed

lemma run_ffmpeg_popen_subprocess_error:
  "popen_raises env = Some (SubprocessError m) \<Longrightarrow>
   run_ffmpeg env cmd vb lang fmt st =
     (Inr False, st\<lparr>failed_extractions := failed_extractions st + 1\<rparr>,
      [(st, Popen cmd),
       (st, Log (''ERROR: Failed to run ffmpeg for '' @ vb @ '' ['' @ lang @ '']'' @ '': '' @ m))])"
  by (simp add: run_ffmpeg_def)

lemma run_ffmpeg_popen_other_error:
  "popen_raises env = Some e \<Longrightarrow> (\<forall>m. e \<noteq> SubprocessError m) \<Longrightarrow>
   run_ffmpeg env cmd vb lang fmt st = (Inl e, st, [(st, Popen cmd)])"
  by (cases e) (simp_all add: run_ffmpeg_def)

lemma run_ffmpeg_cancelled:
  "popen_raises env = None \<Longrightarrow> read_stderr (stderr_lines env) [] st = (True, ls, st1, t1) \<Longrightarrow>
   run_ffmpeg env cmd vb lang fmt st =
     (Inr False, st1,
      (st, Popen cmd) # t1 @
      [(st1, Log (''CANCELLED: Extraction cancelled for '' @ vb @ '' ['' @ lang @ '']''))])"
  by (simp add: run_ffmpeg_def)

lemma run_ffmpeg_finished:
  "popen_raises env = None \<Longrightarrow> read_stderr (stderr_lines env) [] st = (False, ls, st1, t1) \<Longrightarrow>
   gui_cancel (cancel_during_wait env) st1 = (st2, t2) \<Longrightarrow>
   after_wait (return_code env) ls (vb @ '' ['' @ lang @ '']'') fmt st2 = (ok, st3, msg) \<Longrightarrow>
   run_ffmpeg env cmd vb lang fmt st =
     (Inr ok, st3, (st, Popen cmd) # t1 @ [(st1, Wait)] @ t2 @ [(st2, Log msg)])"
  by (simp add: run_ffmpeg_def)

lemma after_wait_effect:
  assumes "after_wait rc ls tag fmt st = (ok, st', msg)"
  shows "total_streams st' = total_streams st" "processed_streams st' = processed_streams st"
    "cancel_flag st' = cancel_flag st"
    "successful_extractions st \<le> successful_extractions st'"
    "failed_extractions st \<le> failed_extractions st'"
    "skipped_extractions st \<le> skipped_extractions st'"
    "ok \<Longrightarrow> successful_extractions st' = successful_extractions st + 1"
    "\<not> (rc \<noteq> 0 \<and> \<not> contains ''Unknown encoder'' (concat ls) \<and>
        contains ''Output file exists'' (concat ls)) \<Longrightarrow> outcome_sum st' = outcome_sum st + 1"
  using assms by (auto simp: after_wait_def Let_def outcome_sum_def split: if_splits)

lemma run_ffmpeg_effect:
  assumes "run_ffmpeg env cmd vb lang fmt st = (r, st', t)"
  shows "total_streams st' = total_streams st \<and> processed_streams st' = processed_streams st
     \<and> (cancel_flag st \<longrightarrow> cancel_flag st')
     \<and> (\<exists>t'. t = (st, Popen cmd) # t' \<and> (\<forall>(s, e) \<in> set t'. counters s = counters st \<and> quiet e))
     \<and> successful_extractions st \<le> successful_extractions st'
     \<and> failed_extractions st \<le> failed_extractions st'
     \<and> skipped_extractions st \<le> skipped_extractions st'
     \<and> (r = Inr True \<longrightarrow> successful_extractions st' = successful_extractions st + 1)
     \<and> (\<forall>e. r = Inl e \<longrightarrow> st' = st)
     \<and> (\<not> exit_exists_race env \<longrightarrow> outcome_sum st' \<le> outcome_sum st + 1)
     \<and> ((\<exists>b. r = Inr b) \<and> \<not> exit_exists_race env \<and> \<not> cancel_flag st \<and> \<not> pressed_while_streaming env
          \<longrightarrow> outcome_sum st' = outcome_sum st + 1)"
proof (cases "popen_raises env")
  case (Some e)
  show ?thesis
  proof (cases "\<exists>m. e = SubprocessError m")
    case True
    then obtain m where "e = SubprocessError m" by blast
    with Some assms run_ffmpeg_popen_subprocess_error[of env m cmd vb lang fmt st]
    show ?thesis by (auto simp: outcome_sum_def quiet_iff counters_def)
  next
    case False
    with Some assms run_ffmpeg_popen_other_error[of env e cmd vb lang fmt st]
    show ?thesis by (auto simp: outcome_sum_def quiet_iff counters_def)
  qed
next
  case None
  obtain c ls st1 t1 where rs: "read_stderr (stderr_lines env) [] st = (c, ls, st1, t1)"
    by (cases "read_stderr (stderr_lines env) [] st") auto
  note a = read_stderr_state[OF rs]
  have c: "c = (stderr_lines env \<noteq> [] \<and> (cancel_flag st \<or> (\<exists>lc \<in> set (stderr_lines env). snd lc)))"
    using read_stderr_cancelled[of "stderr_lines env" "[]" st] rs by simp
  have cnt1: "counters st1 = counters st" using a by simp
  have q1: "\<forall>(s, e) \<in> set t1. counters s = counters st \<and> quiet e" using a by simp
  show ?thesis
  proof (cases c)
    case True
    with rs None assms run_ffmpeg_cancelled[of env st ls st1 t1 cmd vb lang fmt]
    have r: "r = Inr False" "st' = st1"
      "t = (st, Popen cmd) # t1 @ [(st1, Log (''CANCELLED: Extraction cancelled for '' @ vb @ '' ['' @ lang @ '']''))]"
      by auto
    have "\<not> (\<not> cancel_flag st \<and> \<not> pressed_while_streaming env)"
      using True c by (auto simp: pressed_while_streaming_def list_ex_iff)
    then show ?thesis using r cnt1 q1 a
      by (auto simp: counters_def quiet_iff outcome_sum_def)
  next
    case False
    obtain st2 t2 where g: "gui_cancel (cancel_during_wait env) st1 = (st2, t2)"
      by (cases "gui_cancel (cancel_during_wait env) st1")
    obtain ok st3 msg where aw:
      "after_wait (return_code env) ls (vb @ '' ['' @ lang @ '']'') fmt st2 = (ok, st3, msg)"
      by (cases "after_wait (return_code env) ls (vb @ '' ['' @ lang @ '']'') fmt st2") auto
    note gc = gui_cancel_counters[OF g] and gf = gui_cancel_flag[OF g] and gt = gui_cancel_trace[OF g]
    note w = after_wait_effect[OF aw]
    have ls: "ls = map fst (stderr_lines env)" using a False by simp
    from False rs None assms g aw run_ffmpeg_finished[of env st ls st1 t1 st2 t2 vb lang fmt ok st3 msg cmd]
    have r: "r = Inr ok" "st' = st3"
      "t = (st, Popen cmd) # t1 @ [(st1, Wait)] @ t2 @ [(st2, Log msg)]"
      by auto
    have q2: "\<forall>(s, e) \<in> set t2. counters s = counters st \<and> quiet e"
      using gt gc cnt1 by (auto simp: quiet_iff)
    have tr: "\<forall>(s, e) \<in> set (t1 @ [(st1, Wait)] @ t2 @ [(st2, Log msg)]). counters s = counters st \<and> quiet e"
      using q1 q2 cnt1 gc by (auto simp: quiet_iff)
    have s2: "outcome_sum st2 = outcome_sum st" "successful_extractions st2 = successful_extractions st"
      "failed_extractions st2 = failed_extractions st" "skipped_extractions st2 = skipped_extractions st"
      "total_streams st2 = total_streams st" "processed_streams st2 = processed_streams st"
      using gc cnt1 by (auto simp: counters_def outcome_sum_def)
    have fl: "cancel_flag st \<longrightarrow> cancel_flag st'" using r w(3) gf a by auto
    have race: "\<not> exit_exists_race env \<Longrightarrow> outcome_sum st' = outcome_sum st + 1"
      using w(8) ls r s2 by (auto simp: exit_exists_race_def)
    show ?thesis
      using r tr s2 w(1,2,4,5,6,7) fl race by auto
  qed
qed

lemma extract_makedirs_raises:
  "makedirs_raises env = Some e \<Longrightarrow>
   extract_subtitle env v idx lang fmt od ow st =
     (Inl e, st, [(st, MakeDirs (output_dir_of v od))])"
  by (simp add: extract_subtitle_def)

lemma extract_unknown_format:
  "makedirs_raises env = None \<Longrightarrow> map_of SUBTITLE_FORMATS fmt = None \<Longrightarrow>
   extract_subtitle env v idx lang fmt od ow st =
     (Inr False, st\<lparr>failed_extractions := failed_extractions st + 1\<rparr>,
      [(st, MakeDirs (output_dir_of v od)), (st, Log (''ERROR: Unsupported format '' @ fmt))])"
  by (simp add: extract_subtitle_def)

lemma extract_already_exists:
  "makedirs_raises env = None \<Longrightarrow> map_of SUBTITLE_FORMATS fmt = Some info \<Longrightarrow>
   path_exists env \<Longrightarrow> \<not> ow \<Longrightarrow>
   extract_subtitle env v idx lang fmt od ow st =
     (Inr False, st\<lparr>skipped_extractions := skipped_extractions st + 1\<rparr>,
      [(st, MakeDirs (output_dir_of v od)),
       (st, PathExists (output_file_of v lang (extension info) od)),
       (st, Log (''SKIPPED: Subtitle file already exists for '' @ video_basename_of v @
                 '' ['' @ lang @ '']''))])"
  by (simp add: extract_subtitle_def)

lemma extract_runs_ffmpeg:
  "makedirs_raises env = None \<Longrightarrow> map_of SUBTITLE_FORMATS fmt = Some info \<Longrightarrow>
   \<not> (path_exists env \<and> \<not> ow) \<Longrightarrow>
   run_ffmpeg env (ffmpeg_cmd ow v idx (ffmpeg_format info)
                     (output_file_of v lang (extension info) od))
              (video_basename_of v) lang fmt st = (r, st1, t2) \<Longrightarrow>
   extract_subtitle env v idx lang fmt od ow st =
     (r, st1,
      [(st, MakeDirs (output_dir_of v od)),
       (st, PathExists (output_file_of v lang (extension info) od))] @ t2)"
  by (auto simp add: extract_subtitle_def Let_def)

lemma quiet_simps [simp]:
  "quiet (Log m)" "quiet Terminate" "quiet Wait" "\<not> quiet (MakeDirs d)" "\<not> quiet (PathExists p)"
  "\<not> quiet (RunFfprobe f)" "\<not> quiet (Popen c)" "\<not> quiet (UiProgress a b m)"
  "\<not> quiet FinishExtraction"
  by (simp_all add: quiet_iff)

lemma quiet_not: "quiet e \<Longrightarrow> \<not> is_probe e \<and> \<not> is_progress e \<and> \<not> is_popen e \<and> \<not> is_makedirs e"
  by (auto simp: quiet_iff)

lemma extract_subtitle_effect:
  assumes "extract_subtitle env v idx lang fmt od ow st = (r, st', t)"
  shows "total_streams st' = total_streams st \<and> processed_streams st' = processed_streams st
     \<and> (cancel_flag st \<longrightarrow> cancel_flag st')
     \<and> (\<forall>(s, e) \<in> set t. counters s = counters st \<and> \<not> is_probe e \<and> \<not> is_progress e)
     \<and> successful_extractions st \<le> successful_extractions st'
     \<and> failed_extractions st \<le> failed_extractions st'
     \<and> skipped_extractions st \<le> skipped_extractions st'
     \<and> (r = Inr True \<longrightarrow> successful_extractions st' = successful_extractions st + 1)
     \<and> (\<forall>e. r = Inl e \<longrightarrow> st' = st)
     \<and> (\<not> exit_exists_race env \<longrightarrow> outcome_sum st' \<le> outcome_sum st + 1)
     \<and> ((\<exists>b. r = Inr b) \<and> \<not> exit_exists_race env \<and> \<not> cancel_flag st \<and> \<not> pressed_while_streaming env
          \<longrightarrow> outcome_sum st' = outcome_sum st + 1)"
proof (cases "makedirs_raises env")
  case (Some e)
  from assms extract_makedirs_raises[OF Some]
  show ?thesis by auto
next
  case None
  show ?thesis
  proof (cases "map_of SUBTITLE_FORMATS fmt")
    case n: None
    from assms extract_unknown_format[OF None n]
    show ?thesis by (auto simp: outcome_sum_def counters_def)
  next
    case (Some info)
    show ?thesis
    proof (cases "path_exists env \<and> \<not> ow")
      case True
      with assms extract_already_exists[OF None Some, where ow=ow]
      show ?thesis by (auto simp: outcome_sum_def counters_def)
    next
      case False
      obtain r1 st1 t2 where rf:
        "run_ffmpeg env (ffmpeg_cmd ow v idx (ffmpeg_format info)
                     (output_file_of v lang (extension info) od))
              (video_basename_of v) lang fmt st = (r1, st1, t2)"
        using prod_cases3 by blast
      from assms extract_runs_ffmpeg[OF None Some False rf]
      have eq: "r = r1" "st' = st1"
        "t = [(st, MakeDirs (output_dir_of v od)),
              (st, PathExists (output_file_of v lang (extension info) od))] @ t2"
        by auto
      note e = run_ffmpeg_effect[OF rf]
      from e obtain t' where t': "t2 = (st, Popen (ffmpeg_cmd ow v idx (ffmpeg_format info)
                     (output_file_of v lang (extension info) od))) # t'"
         "\<forall>(s, e) \<in> set t'. counters s = counters st \<and> quiet e" by blast
      have tr: "\<forall>(s, e) \<in> set t. counters s = counters st \<and> \<not> is_probe e \<and> \<not> is_progress e"
        using eq t' quiet_not by auto
      show ?thesis using e eq(1,2) tr by simp
    qed
  qed
qed

lemma srt_known:
  "map_of SUBTITLE_FORMATS ''SRT'' =
     Some \<lparr>extension = ''srt'', ffmpeg_format = ''srt'', description = ''SubRip Text''\<rparr>"
  by (simp add: SUBTITLE_FORMATS_def)

lemma events_simps [simp]: "events [] = []" "events ((s, e) # t) = e # events t"
  "events (t @ u) = events t @ events u"
  by (simp_all add: events_def)

lemma read_stderr_terminated:
  "read_stderr ls acc st = (True, acc', st', t) \<Longrightarrow>
     \<exists>t0. t = t0 @ [(st', Terminate)] \<and> (\<forall>(s, e) \<in> set t0. \<exists>m. e = Log m)"
proof (induction ls arbitrary: acc st acc' st' t)
  case Nil
  then show ?case by simp
next
  case (Cons a ls)
  obtain line pressed where a: "a = (line, pressed)" by (cases a)
  obtain st1 t1 where g: "gui_cancel pressed st = (st1, t1)" by (cases "gui_cancel pressed st")
  note gt = gui_cancel_trace[OF g]
  show ?case
  proof (cases "cancel_flag st1")
    case True
    then have "st' = st1" "t = t1 @ [(st1, Terminate)]"
      using Cons.prems a g by auto
    then show ?thesis using gt by auto
  next
    case False
    obtain c2 acc2 st2 t2 where r: "read_stderr ls (acc @ [line]) st1 = (c2, acc2, st2, t2)"
      by (cases "read_stderr ls (acc @ [line]) st1") auto
    from Cons.prems a g False r have eq: "c2 = True" "st' = st2" "t = t1 @ t2" by auto
    from Cons.IH[OF r[unfolded eq(1)]] obtain t0 where
      t0: "t2 = t0 @ [(st2, Terminate)]" "\<forall>(s, e) \<in> set t0. \<exists>m. e = Log m" by blast
    have "t = (t1 @ t0) @ [(st', Terminate)]" using eq t0 by simp
    moreover have "\<forall>(s, e) \<in> set (t1 @ t0). \<exists>m. e = Log m" using t0 gt by auto
    ultimately show ?thesis by blast
  qed
qed

lemma takeWhile_neq_append: "a \<notin> set xs \<Longrightarrow> takeWhile (\<lambda>c. c \<noteq> a) (xs @ a # ys) = xs"
  by (induction xs) auto

lemma dropWhile_neq_append: "a \<notin> set xs \<Longrightarrow> dropWhile (\<lambda>c. c \<noteq> a) (xs @ a # ys) = a # ys"
  by (induction xs) auto

lemma takeWhile_neq_all: "a \<notin> set xs \<Longrightarrow> takeWhile (\<lambda>c. c \<noteq> a) xs = xs"
  by (induction xs) auto

lemma dropWhile_neq_all: "a \<notin> set xs \<Longrightarrow> dropWhile (\<lambda>c. c \<noteq> a) xs = []"
  by (induction xs) auto

lemma set_tl_subset: "x \<in> set (tl xs) \<Longrightarrow> x \<in> set xs"
  by (cases xs) auto

lemma basename_join: "sep \<notin> set name \<Longrightarrow> basename (d @ sep # name) = name"
  by (simp add: basename_def takeWhile_neq_append)

lemma dirname_join:
  assumes "sep \<notin> set name" "d \<noteq> []" "last d \<noteq> sep"
  shows "dirname (d @ sep # name) = d"
proof -
  have 1: "dropWhile (\<lambda>c. c \<noteq> sep) (rev name @ sep # rev d) = sep # rev d"
    using assms(1) by (simp add: dropWhile_neq_append)
  have 2: "\<exists>c \<in> set d. c \<noteq> sep" using assms(2,3) last_in_set by blast
  have 3: "dropWhile (\<lambda>c. c = sep) (rev d) = rev d"
    using assms(2,3) by (cases d rule: rev_cases) auto
  show ?thesis using 1 2 3 by (auto simp: dirname_def Let_def)
qed

lemma splitext_simple:
  assumes "sep \<notin> set stem" "sep \<notin> set e" "CHR ''.'' \<notin> set e" "\<exists>c \<in> set stem. c \<noteq> CHR ''.''"
  shows "splitext (stem @ CHR ''.'' # e) = (stem, CHR ''.'' # e)"
proof -
  let ?n = "stem @ CHR ''.'' # e"
  have s: "sep \<noteq> CHR ''.''" by (simp add: sep_def)
  have nosep: "sep \<notin> set ?n" using assms(1,2) s by auto
  have tw: "takeWhile (\<lambda>c. c \<noteq> sep) (rev ?n) = rev ?n"
    using nosep takeWhile_neq_all[of sep "rev ?n"] by simp
  have b: "basename ?n = ?n" unfolding basename_def tw by simp
  have f: "dropWhile (\<lambda>c. c \<noteq> sep) (rev ?n) = []"
    using nosep dropWhile_neq_all[of sep "rev ?n"] by simp
  have d: "dropWhile (\<lambda>c. c \<noteq> CHR ''.'') (rev ?n) = CHR ''.'' # rev stem"
    using assms(3) by (simp add: dropWhile_neq_append)
  have t: "takeWhile (\<lambda>c. c \<noteq> CHR ''.'') (rev ?n) = rev e"
    using assms(3) by (simp add: takeWhile_neq_append)
  show ?thesis
    unfolding splitext_def Let_def b f d t using assms(4) by auto
qed

lemma probe_cases:
  obtains (caught) "\<not> probe_escapes penv" "probe_streams penv = []"
      "(\<exists>m. probe_body penv = Inl (SubprocessError m)) \<or> (\<exists>m. probe_body penv = Inl (JSONDecodeError m))"
    | (escapes) e where "probe_escapes penv" "probe_body penv = Inl e"
      "\<forall>m. e \<noteq> SubprocessError m" "\<forall>m. e \<noteq> JSONDecodeError m"
    | (ok) ss where "\<not> probe_escapes penv" "probe_body penv = Inr ss" "probe_streams penv = ss"
proof (cases "probe_body penv")
  case (Inl e)
  then show ?thesis
    by (cases e) (auto simp: probe_escapes_def probe_streams_def intro: caught escapes)
next
  case (Inr ss)
  then show ?thesis by (auto simp: probe_escapes_def probe_streams_def intro: ok)
qed

lemma get_subtitle_streams_caught:
  assumes "probe_body penv = Inl (SubprocessError m) \<or> probe_body penv = Inl (JSONDecodeError m)"
    and "gui_cancel (cancel_during penv) st = (st1, t1)"
  shows "\<exists>msg. get_subtitle_streams penv vf st =
           (Inr [], st1, (st, RunFfprobe vf) # t1 @ [(st1, Log msg)])
         \<and> startswith msg ''ERROR: Failed to ''"
  using assms by (auto simp: get_subtitle_streams_def)

lemma get_subtitle_streams_escapes:
  assumes "probe_body penv = Inl e" "\<forall>m. e \<noteq> SubprocessError m" "\<forall>m. e \<noteq> JSONDecodeError m"
    and "gui_cancel (cancel_during penv) st = (st1, t1)"
  shows "get_subtitle_streams penv vf st = (Inl e, st1, (st, RunFfprobe vf) # t1)"
  using assms by (cases e) (auto simp: get_subtitle_streams_def)

lemma get_subtitle_streams_ok:
  assumes "probe_body penv = Inr ss"
    and "gui_cancel (cancel_during penv) st = (st1, t1)"
  shows "get_subtitle_streams penv vf st = (Inr ss, st1, (st, RunFfprobe vf) # t1)"
  using assms by (auto simp: get_subtitle_streams_def)

lemma get_subtitle_streams_effect:
  assumes "get_subtitle_streams penv vf st = (r, st', t)"
  shows "counters st' = counters st \<and> cancel_flag st' = (cancel_during penv \<or> cancel_flag st)
     \<and> (\<exists>t'. t = (st, RunFfprobe vf) # t' \<and> (\<forall>(s, e) \<in> set t'. counters s = counters st \<and> quiet e))
     \<and> (probe_escapes penv \<longrightarrow> (\<exists>e. r = Inl e))
     \<and> (\<not> probe_escapes penv \<longrightarrow> r = Inr (probe_streams penv))"
proof -
  obtain st1 t1 where g: "gui_cancel (cancel_during penv) st = (st1, t1)"
    by (cases "gui_cancel (cancel_during penv) st")
  note gc = gui_cancel_counters[OF g] and gf = gui_cancel_flag[OF g] and gt = gui_cancel_trace[OF g]
  have q: "\<forall>(s, e) \<in> set t1. counters s = counters st \<and> quiet e"
    using gc by (auto dest!: gt)
  show ?thesis
  proof (cases penv rule: probe_cases)
    case caught
    then obtain m where "probe_body penv = Inl (SubprocessError m) \<or> probe_body penv = Inl (JSONDecodeError m)"
      by blast
    from get_subtitle_streams_caught[OF this g, of vf] assms caught gc gf q
    show ?thesis by auto
  next
    case (escapes e)
    from get_subtitle_streams_escapes[OF escapes(2,3,4) g, of vf] assms escapes(1) gc gf q
    show ?thesis by auto
  next
    case (ok ss)
    from get_subtitle_streams_ok[OF ok(2) g, of vf] assms ok(1,3) gc gf q
    show ?thesis by auto
  qed
qed

lemma scan_loop_cancelled:
  "cancel_flag st \<Longrightarrow> scan_loop pr lang n i vfs found st = (Inr found, st, [])"
  by (cases vfs) simp_all

lemma scan_loop_step:
  assumes "\<not> cancel_flag st" "get_subtitle_streams (pr i) vf st = (Inr streams, st1, t1)"
    and "scan_loop pr lang n (Suc i) rest
           (found @ map (\<lambda>stream. (vf, stream)) (filter (\<lambda>stream. language stream = JStr lang) streams))
           st1 = (r, st2, t3)"
  shows "scan_loop pr lang n i (vf # rest) found st =
      (r, st2, t1 @ [(st1, UiProgress (length found + length (filter (\<lambda>stream. language stream = JStr lang) streams))
                            n (''Scanning: '' @ basename vf))] @ t3)"
  using assms by (simp add: Let_def)

lemma scan_loop_raise:
  assumes "\<not> cancel_flag st" "get_subtitle_streams (pr i) vf st = (Inl e, st1, t1)"
  shows "scan_loop pr lang n i (vf # rest) found st = (Inl e, st1, t1)"
  using assms by simp

lemma scan_loop_effect:
  "scan_loop pr lang n i vfs found st = (r, st', t) \<Longrightarrow>
     counters st' = counters st \<and> (cancel_flag st \<longrightarrow> cancel_flag st')
     \<and> (\<forall>(s, e) \<in> set t. counters s = counters st \<and> \<not> is_popen e \<and> \<not> is_makedirs e)"
proof (induction vfs arbitrary: i found st r st' t)
  case Nil
  then show ?case by simp
next
  case (Cons vf rest)
  show ?case
  proof (cases "cancel_flag st")
    case True
    then show ?thesis using Cons.prems scan_loop_cancelled[OF True] by simp
  next
    case False
    obtain r1 st1 t1 where gs: "get_subtitle_streams (pr i) vf st = (r1, st1, t1)"
      using prod_cases3 by blast
    note ge = get_subtitle_streams_effect[OF gs]
    from ge have tr1: "\<forall>(s, e) \<in> set t1. counters s = counters st \<and> \<not> is_popen e \<and> \<not> is_makedirs e"
      using quiet_not by fastforce
    show ?thesis
    proof (cases r1)
      case (Inl e)
      with Cons.prems scan_loop_raise[where pr=pr and i=i, OF False gs[unfolded Inl]] ge tr1
      show ?thesis by auto
    next
      case (Inr streams)
      let ?found = "found @ map (\<lambda>stream. (vf, stream)) (filter (\<lambda>stream. language stream = JStr lang) streams)"
      obtain r2 st2 t3 where rec: "scan_loop pr lang n (Suc i) rest ?found st1 = (r2, st2, t3)"
        using prod_cases3 by blast
      from scan_loop_step[where pr=pr and i=i, OF False gs[unfolded Inr] rec] Cons.prems
      have eq: "r = r2" "st' = st2"
        "t = t1 @ [(st1, UiProgress (length found + length (filter (\<lambda>stream. language stream = JStr lang) streams))
                            n (''Scanning: '' @ basename vf))] @ t3"
        by auto
      from Cons.IH[OF rec] have ih: "counters st2 = counters st1" "cancel_flag st1 \<longrightarrow> cancel_flag st2"
        "\<forall>(s, e) \<in> set t3. counters s = counters st1 \<and> \<not> is_popen e \<and> \<not> is_makedirs e" by auto
      have c1: "counters st1 = counters st" using ge by simp
      show ?thesis using eq ih c1 tr1 False by auto
    qed
  qed
qed

lemma probed_files_simps [simp]:
  "probed_files [] = []"
  "probed_files ((s, RunFfprobe f) # t) = f # probed_files t"
  "probed_files (t @ u) = probed_files t @ probed_files u"
  "probed_files ((s, UiProgress a b m) # t) = probed_files t"
  "probed_files ((s, Log m) # t) = probed_files t"
  "probed_files ((s, FinishExtraction) # t) = probed_files t"
  by (simp_all add: probed_files_def events_def)

lemma probed_files_none:
  "\<forall>(s, e) \<in> set t. \<not> is_probe e \<Longrightarrow> probed_files t = []"
proof (induction t)
  case Nil
  then show ?case by simp
next
  case (Cons a t)
  obtain s e where a: "a = (s, e)" by (cases a)
  have "\<not> is_probe e" using Cons.prems a by simp
  then have "probed_files (a # t) = probed_files t"
    unfolding a by (cases e) (simp_all add: probed_files_def events_def)
  then show ?case using Cons by simp
qed

lemma progress_none:
  "\<forall>(s, e) \<in> set t. \<not> is_progress e \<Longrightarrow> filter is_progress (events t) = []"
  by (induction t) (auto simp: events_def)

lemma found_between_step:
  "i < k \<Longrightarrow> found_between pr lang i k = matches (pr i) lang + found_between pr lang (Suc i) k"
  by (simp add: found_between_def upt_conv_Cons)

lemma found_between_empty [simp]: "found_between pr lang i i = 0"
  by (simp add: found_between_def)

lemma scan_loop_progress:
  "scan_loop pr lang n i vfs found st = (r, st', t) \<Longrightarrow>
     (\<exists>m \<le> length vfs.
        probed_files t = take (length (probed_files t)) vfs
      \<and> filter is_progress (events t) =
          map (\<lambda>k. UiProgress (length found + found_between pr lang i (Suc (i + k))) n
                      (''Scanning: '' @ basename (vfs ! k))) [0..<m]
      \<and> (case r of Inr tasks \<Rightarrow> length (probed_files t) = m
                                \<and> length tasks = length found + found_between pr lang i (i + m)
                  | Inl e \<Rightarrow> length (probed_files t) = Suc m)
      \<and> (\<not> cancel_flag st \<and> (\<forall>k. \<not> cancel_during (pr k) \<and> \<not> probe_escapes (pr k))
           \<longrightarrow> m = length vfs \<and> \<not> cancel_flag st' \<and> (\<exists>tasks. r = Inr tasks)))"
proof (induction vfs arbitrary: i found st r st' t)
  case Nil
  then show ?case by auto
next
  case (Cons vf rest)
  show ?case
  proof (cases "cancel_flag st")
    case True
    then show ?thesis using Cons.prems scan_loop_cancelled[OF True, of pr lang n i "vf # rest" found]
      by auto
  next
    case False
    obtain r1 st1 t1 where gs: "get_subtitle_streams (pr i) vf st = (r1, st1, t1)"
      using prod_cases3 by blast
    note ge = get_subtitle_streams_effect[OF gs]
    from ge obtain t1' where t1: "t1 = (st, RunFfprobe vf) # t1'"
      "\<forall>(s, e) \<in> set t1'. counters s = counters st \<and> quiet e" by blast
    have np: "\<forall>(s, e) \<in> set t1'. \<not> is_probe e" and ng: "\<forall>(s, e) \<in> set t1'. \<not> is_progress e"
      using t1(2) quiet_not by fastforce+
    have pf1: "probed_files t1 = [vf]" using t1(1) probed_files_none[OF np] by simp
    have pg1: "filter is_progress (events t1) = []" using t1(1) progress_none[OF ng] by simp
    show ?thesis
    proof (cases r1)
      case (Inl e)
      from Cons.prems scan_loop_raise[where pr=pr and i=i, OF False gs[unfolded Inl]]
      have eq: "r = Inl e" "st' = st1" "t = t1" by auto
      have esc: "probe_escapes (pr i)" using ge Inl by auto
      show ?thesis
        by (rule exI[of _ 0]) (use eq pf1 pg1 esc in auto)
    next
      case (Inr streams)
      have ne: "\<not> probe_escapes (pr i)" using ge Inr by auto
      then have streams: "streams = probe_streams (pr i)" using ge Inr by auto
      let ?k = "length (filter (\<lambda>stream. language stream = JStr lang) streams)"
      let ?found = "found @ map (\<lambda>stream. (vf, stream)) (filter (\<lambda>stream. language stream = JStr lang) streams)"
      have k: "?k = matches (pr i) lang" using streams by (simp add: matches_def)
      obtain r2 st2 t3 where rec: "scan_loop pr lang n (Suc i) rest ?found st1 = (r2, st2, t3)"
        using prod_cases3 by blast
      from scan_loop_step[where pr=pr and i=i, OF False gs[unfolded Inr] rec] Cons.prems
      have eq: "r = r2" "st' = st2"
        "t = t1 @ [(st1, UiProgress (length found + ?k) n (''Scanning: '' @ basename vf))] @ t3"
        by auto
      from Cons.IH[OF rec] obtain m where m: "m \<le> length rest"
        "probed_files t3 = take (length (probed_files t3)) rest"
        "filter is_progress (events t3) =
          map (\<lambda>k. UiProgress (length ?found + found_between pr lang (Suc i) (Suc (Suc i + k))) n
                      (''Scanning: '' @ basename (rest ! k))) [0..<m]"
        "(case r2 of Inr tasks \<Rightarrow> length (probed_files t3) = m
                                \<and> length tasks = length ?found + found_between pr lang (Suc i) (Suc i + m)
                  | Inl e \<Rightarrow> length (probed_files t3) = Suc m)"
        "(\<not> cancel_flag st1 \<and> (\<forall>k. \<not> cancel_during (pr k) \<and> \<not> probe_escapes (pr k))
           \<longrightarrow> m = length rest \<and> \<not> cancel_flag st2 \<and> (\<exists>tasks. r2 = Inr tasks))"
        by blast
      have fl: "cancel_flag st1 = (cancel_during (pr i) \<or> cancel_flag st)" using ge by simp
      have fb: "\<And>j. found_between pr lang i (Suc (i + Suc j)) =
             ?k + found_between pr lang (Suc i) (Suc (Suc i + j))"
        using found_between_step[of i _ pr lang] k by simp
      have fb0: "found_between pr lang i (Suc (i + 0)) = ?k"
        using found_between_step[of i "Suc i" pr lang] k by simp
      have fbm: "found_between pr lang i (i + Suc m) = ?k + found_between pr lang (Suc i) (Suc i + m)"
        using found_between_step[of i "i + Suc m" pr lang] k by simp
      have P: "filter is_progress (events t) =
          map (\<lambda>k. UiProgress (length found + found_between pr lang i (Suc (i + k))) n
                      (''Scanning: '' @ basename ((vf # rest) ! k))) [0..<Suc m]"
      proof -
        have "[0..<Suc m] = 0 # map Suc [0..<m]"
          by (simp add: upt_conv_Cons map_Suc_upt del: upt_Suc)
        then show ?thesis
          using eq(3) pg1 m(3) fb fb0 by (simp add: o_def del: upt_Suc)
      qed
      have pf: "probed_files t = vf # probed_files t3" using eq(3) pf1 by simp
      show ?thesis
      proof (rule exI[of _ "Suc m"], intro conjI)
        show "Suc m \<le> length (vf # rest)" using m(1) by simp
        show "probed_files t = take (length (probed_files t)) (vf # rest)"
          using pf m(2) by simp
        show "filter is_progress (events t) =
          map (\<lambda>k. UiProgress (length found + found_between pr lang i (Suc (i + k))) n
                      (''Scanning: '' @ basename ((vf # rest) ! k))) [0..<Suc m]" by (rule P)
        show "case r of Inr tasks \<Rightarrow> length (probed_files t) = Suc m
                                \<and> length tasks = length found + found_between pr lang i (i + Suc m)
                  | Inl e \<Rightarrow> length (probed_files t) = Suc (Suc m)"
          using m(4) eq(1) pf fbm by (auto split: sum.splits)
        show "\<not> cancel_flag st \<and> (\<forall>k. \<not> cancel_during (pr k) \<and> \<not> probe_escapes (pr k))
           \<longrightarrow> Suc m = length (vf # rest) \<and> \<not> cancel_flag st' \<and> (\<exists>tasks. r = Inr tasks)"
          using m(5) fl eq(1,2) by auto
      qed
    qed
  qed
qed

lemma extract_loop_cancelled:
  "cancel_flag st \<Longrightarrow> extract_loop ex lang fmt od ow j items st = (Inr (), st, [])"
  by (cases items) auto

lemma extract_loop_raise:
  assumes "\<not> cancel_flag st"
    and "extract_subtitle (ex j) vf (index stream) lang fmt od ow st = (Inl e, st1, t1)"
  shows "extract_loop ex lang fmt od ow j ((vf, stream) # rest) st = (Inl e, st1, t1)"
  using assms by simp

lemma extract_loop_step:
  assumes "\<not> cancel_flag st"
    and "extract_subtitle (ex j) vf (index stream) lang fmt od ow st = (Inr ok, st1, t1)"
    and "st2 = st1\<lparr>processed_streams := processed_streams st1 + 1\<rparr>"
    and "extract_loop ex lang fmt od ow (Suc j) rest st2 = (r, st3, t3)"
  shows "extract_loop ex lang fmt od ow j ((vf, stream) # rest) st =
      (r, st3, t1 @ [(st2, UiProgress (processed_streams st2) (total_streams st2)
                             (''Extracting: '' @ basename vf))] @ t3)"
  using assms by (simp add: Let_def)

lemma extract_loop_effect:
  "extract_loop ex lang fmt od ow j items st = (r, st', t) \<Longrightarrow>
     (cancel_flag st \<longrightarrow> cancel_flag st') \<and> within st (length items) st'
     \<and> (\<forall>(s, e) \<in> set t. within st (length items) s \<and> \<not> is_probe e)
     \<and> ((\<forall>q. \<not> exit_exists_race (ex q))
          \<longrightarrow> at_most_one_each st st' \<and> (\<forall>(s, e) \<in> set t. at_most_one_each st s))
     \<and> ((\<forall>q. \<not> exit_exists_race (ex q) \<and> \<not> pressed_while_streaming (ex q))
          \<longrightarrow> one_each st st' \<and> (\<forall>(s, e) \<in> set t. one_each st s))"
proof (induction items arbitrary: j st r st' t)
  case Nil
  then show ?case by (auto simp: within_def at_most_one_each_def one_each_def)
next
  case (Cons item rest)
  obtain vf stream where item: "item = (vf, stream)" by (cases item)
  show ?case
  proof (cases "cancel_flag st")
    case True
    then show ?thesis using Cons.prems extract_loop_cancelled[OF True, of ex lang fmt od ow j "item # rest"]
      by (auto simp: within_def at_most_one_each_def one_each_def)
  next
    case False
    obtain r1 st1 t1 where es: "extract_subtitle (ex j) vf (index stream) lang fmt od ow st = (r1, st1, t1)"
      using prod_cases3 by blast
    note ee = extract_subtitle_effect[OF es]
    have c1: "\<forall>(s, e) \<in> set t1. counters s = counters st \<and> \<not> is_probe e" using ee by auto
    have tr1: "\<forall>(s, e) \<in> set t1. within st (length (item # rest)) s \<and> \<not> is_probe e
          \<and> at_most_one_each st s \<and> one_each st s"
      using c1 by (auto simp: within_def at_most_one_each_def one_each_def counters_def outcome_sum_def)
    show ?thesis
    proof (cases r1)
      case (Inl e)
      from Cons.prems[unfolded item] extract_loop_raise[where ex=ex and j=j, OF False es[unfolded Inl]]
      have eq: "r = Inl e" "st' = st1" "t = t1" by auto
      have "st1 = st" using ee Inl by simp
      then have "within st (length (item # rest)) st' \<and> at_most_one_each st st' \<and> one_each st st'"
        using eq by (simp add: within_def at_most_one_each_def one_each_def)
      then show ?thesis using eq tr1 False by auto
    next
      case (Inr ok)
      define st2 where "st2 = st1\<lparr>processed_streams := processed_streams st1 + 1\<rparr>"
      obtain r3 st3 t3 where rec: "extract_loop ex lang fmt od ow (Suc j) rest st2 = (r3, st3, t3)"
        using prod_cases3 by blast
      from extract_loop_step[where ex=ex and j=j, OF False es[unfolded Inr] st2_def rec] Cons.prems[unfolded item]
      have eq: "r = r3" "st' = st3"
        "t = t1 @ [(st2, UiProgress (processed_streams st2) (total_streams st2)
                             (''Extracting: '' @ basename vf))] @ t3"
        by auto
      note ih = Cons.IH[OF rec]
      have w2: "within st (length (item # rest)) st2"
        using ee by (simp add: st2_def within_def)
      have a2: "\<not> exit_exists_race (ex j) \<Longrightarrow> at_most_one_each st st2"
        using ee by (auto simp: st2_def at_most_one_each_def outcome_sum_def)
      have o2: "\<not> exit_exists_race (ex j) \<Longrightarrow> \<not> pressed_while_streaming (ex j) \<Longrightarrow> one_each st st2"
        using ee False Inr by (auto simp: st2_def one_each_def outcome_sum_def)
      have wtrans: "\<And>s. within st2 (length rest) s \<Longrightarrow> within st (length (item # rest)) s"
        using ee by (auto simp: st2_def within_def)
      have atrans: "\<And>s. at_most_one_each st st2 \<Longrightarrow> at_most_one_each st2 s \<Longrightarrow> at_most_one_each st s"
        by (auto simp: at_most_one_each_def)
      have otrans: "\<And>s. one_each st st2 \<Longrightarrow> one_each st2 s \<Longrightarrow> one_each st s"
        by (auto simp: one_each_def)
      have fl: "cancel_flag st \<longrightarrow> cancel_flag st'" using False by simp
      have W: "within st (length (item # rest)) st'" using ih wtrans eq by blast
      have T: "\<forall>(s, e) \<in> set t. within st (length (item # rest)) s \<and> \<not> is_probe e"
        using tr1 w2 ih wtrans unfolding eq(3) by auto
      have A: "(\<forall>q. \<not> exit_exists_race (ex q))
          \<longrightarrow> at_most_one_each st st' \<and> (\<forall>(s, e) \<in> set t. at_most_one_each st s)"
      proof
        assume h: "\<forall>q. \<not> exit_exists_race (ex q)"
        then have a: "at_most_one_each st st2" using a2 by blast
        from ih h have "at_most_one_each st2 st3" "\<forall>(s, e) \<in> set t3. at_most_one_each st2 s" by blast+
        then show "at_most_one_each st st' \<and> (\<forall>(s, e) \<in> set t. at_most_one_each st s)"
          using a atrans tr1 unfolding eq(2,3) by auto
      qed
      have O: "(\<forall>q. \<not> exit_exists_race (ex q) \<and> \<not> pressed_while_streaming (ex q))
          \<longrightarrow> one_each st st' \<and> (\<forall>(s, e) \<in> set t. one_each st s)"
      proof
        assume h: "\<forall>q. \<not> exit_exists_race (ex q) \<and> \<not> pressed_while_streaming (ex q)"
        then have a: "one_each st st2" using o2 by blast
        from ih h have "one_each st2 st3" "\<forall>(s, e) \<in> set t3. one_each st2 s" by blast+
        then show "one_each st st' \<and> (\<forall>(s, e) \<in> set t. one_each st s)"
          using a otrans tr1 unfolding eq(2,3) by auto
      qed
      show ?thesis using fl W T A O by blast
    qed
  qed
qed


lemma run_extraction_cases:
  assumes "run_extraction env dirs lang fmt od st = (st', t)"
  obtains
    (no_files) m where "all_video_files (os_walk env) dirs = []" "st' = st"
      "t = [(st, Log m), (st, FinishExtraction), (st, FinishExtraction)]"
  | (scan_raise) e st1 t1 m m' where "all_video_files (os_walk env) dirs \<noteq> []"
      "scan_loop (probes env) lang (length (all_video_files (os_walk env) dirs)) 0
         (all_video_files (os_walk env) dirs) [] st = (Inl e, st1, t1)"
      "st' = st1" "t = (st, Log m) # t1 @ [(st1, Log m'), (st1, FinishExtraction)]"
  | (no_tasks) st1 t1 m m' where "all_video_files (os_walk env) dirs \<noteq> []"
      "scan_loop (probes env) lang (length (all_video_files (os_walk env) dirs)) 0
         (all_video_files (os_walk env) dirs) [] st = (Inr [], st1, t1)"
      "st' = st1\<lparr>total_streams := 0\<rparr>"
      "t = (st, Log m) # t1 @ [(st', Log m'), (st', FinishExtraction), (st', FinishExtraction)]"
  | (tasks_found) tasks st1 t1 r t3 t4 m m' where "all_video_files (os_walk env) dirs \<noteq> []"
      "scan_loop (probes env) lang (length (all_video_files (os_walk env) dirs)) 0
         (all_video_files (os_walk env) dirs) [] st = (Inr tasks, st1, t1)"
      "tasks \<noteq> []"
      "extract_loop (extracts env) lang fmt od (overwrite_var env) 0 tasks
         (st1\<lparr>total_streams := length tasks, processed_streams := 0\<rparr>) = (r, st', t3)"
      "t = (st, Log m) # t1 @ [(st1\<lparr>total_streams := length tasks\<rparr>, Log m')] @ t3 @ t4"
      "\<forall>(s, e) \<in> set t4. s = st' \<and> ((\<exists>m. e = Log m) \<or> e = FinishExtraction)"
proof (cases "all_video_files (os_walk env) dirs = []")
  case True
  then show ?thesis using assms no_files
    by (auto simp: run_extraction_def run_body_def)
next
  case False
  let ?vfs = "all_video_files (os_walk env) dirs"
  obtain r1 st1 t1 where sc: "scan_loop (probes env) lang (length ?vfs) 0 ?vfs [] st = (r1, st1, t1)"
    using prod_cases3 by blast
  show ?thesis
  proof (cases r1)
    case (Inl e)
    show ?thesis
      by (rule scan_raise[OF False sc[unfolded Inl]])
         (use assms False sc Inl in \<open>auto simp: run_extraction_def run_body_def Let_def\<close>)
  next
    case (Inr tasks)
    show ?thesis
    proof (cases "tasks = []")
      case True
      show ?thesis
        by (rule no_tasks[OF False sc[unfolded Inr True]])
           (use assms False sc Inr True in \<open>auto simp: run_extraction_def run_body_def Let_def\<close>)
    next
      case ne: False
      obtain r3 st4 t3 where el: "extract_loop (extracts env) lang fmt od (overwrite_var env) 0 tasks
         (st1\<lparr>total_streams := length tasks, processed_streams := 0\<rparr>) = (r3, st4, t3)"
        using prod_cases3 by blast
      have "st' = st4 \<and> (\<exists>m m' t4. t = (st, Log m) # t1 @ [(st1\<lparr>total_streams := length tasks\<rparr>, Log m')] @ t3 @ t4
          \<and> (\<forall>(s, e) \<in> set t4. s = st' \<and> ((\<exists>m. e = Log m) \<or> e = FinishExtraction)))"
        using assms False sc Inr ne el
        by (cases r3) (auto simp: run_extraction_def run_body_def Let_def)
      then show ?thesis using tasks_found[OF False sc[unfolded Inr] ne] el by blast
    qed
  qed
qed

lemma counters_reset [simp]: "counters (reset st) = (0, 0, 0, 0, 0)"
  by (simp add: counters_def reset_def)

lemma zero_counters:
  "counters s = (0, 0, 0, 0, 0) \<Longrightarrow>
     processed_streams s = 0 \<and> total_streams s = 0 \<and> outcome_sum s = 0"
  by (simp add: counters_def outcome_sum_def)

lemma no_popen_quiet: "\<forall>(s, e) \<in> set t. s = st' \<and> ((\<exists>m. e = Log m) \<or> e = FinishExtraction)
    \<Longrightarrow> \<forall>(s, e) \<in> set t. \<not> is_popen e \<and> \<not> is_probe e \<and> \<not> is_makedirs e"
  by auto

lemma list_ex_events: "list_ex P (events t) = (\<exists>(s, e) \<in> set t. P e)"
  by (force simp: list_ex_iff events_def)

lemma count_list_concat:
  "count_list (concat xss) f = sum_list (map (\<lambda>xs. count_list xs f) xss)"
  by (induction xss) simp_all

lemma scan_loop_probed:
  assumes "scan_loop pr lang n i vfs found st = (r, st', t)"
  shows "probed_files t = take (length (probed_files t)) vfs
     \<and> (\<not> cancel_flag st \<and> (\<forall>k. \<not> cancel_during (pr k) \<and> \<not> probe_escapes (pr k))
          \<longrightarrow> probed_files t = vfs)"
proof -
  from scan_loop_progress[OF assms] obtain m where m: "m \<le> length vfs"
    "probed_files t = take (length (probed_files t)) vfs"
    "case r of Inr tasks \<Rightarrow> length (probed_files t) = m
                                \<and> length tasks = length found + found_between pr lang i (i + m)
                  | Inl e \<Rightarrow> length (probed_files t) = Suc m"
    "\<not> cancel_flag st \<and> (\<forall>k. \<not> cancel_during (pr k) \<and> \<not> probe_escapes (pr k))
           \<longrightarrow> m = length vfs \<and> \<not> cancel_flag st' \<and> (\<exists>tasks. r = Inr tasks)"
    by blast
  have "probed_files t = vfs"
    if h: "\<not> cancel_flag st \<and> (\<forall>k. \<not> cancel_during (pr k) \<and> \<not> probe_escapes (pr k))"
  proof -
    from m(4) h obtain tasks where "m = length vfs" "r = Inr tasks" by blast
    then have "length (probed_files t) = length vfs" using m(3) by simp
    then show ?thesis using m(2) by simp
  qed
  then show ?thesis using m(2) by blast
qed

lemma list_ex_none: "\<forall>(s, e) \<in> set t. \<not> P e \<Longrightarrow> \<not> list_ex P (events t)"
  by (auto simp: list_ex_events)



lemma scan_loop_escape:
  "\<not> cancel_flag st \<Longrightarrow> k < length vfs \<Longrightarrow>
   \<forall>q < k. \<not> cancel_during (pr (i + q)) \<and> \<not> probe_escapes (pr (i + q)) \<Longrightarrow>
   probe_body (pr (i + k)) = Inl e \<Longrightarrow> \<forall>m. e \<noteq> SubprocessError m \<Longrightarrow>
   \<forall>m. e \<noteq> JSONDecodeError m \<Longrightarrow>
     \<exists>st1 t1. scan_loop pr lang n i vfs found st = (Inl e, st1, t1)
       \<and> probed_files t1 = take (Suc k) vfs"
proof (induction vfs arbitrary: i k found st)
  case Nil
  then show ?case by simp
next
  case (Cons vf rest)
  obtain r1 st1 t1 where gs: "get_subtitle_streams (pr i) vf st = (r1, st1, t1)"
    using prod_cases3 by blast
  note ge = get_subtitle_streams_effect[OF gs]
  from ge obtain t1' where t1: "t1 = (st, RunFfprobe vf) # t1'"
    "\<forall>(s, e) \<in> set t1'. counters s = counters st \<and> quiet e" by blast
  have np: "\<forall>(s, e) \<in> set t1'. \<not> is_probe e" using t1(2) quiet_not by fastforce
  have pf1: "probed_files t1 = [vf]" using t1(1) probed_files_none[OF np] by simp
  show ?case
  proof (cases k)
    case 0
    obtain st0 t0 where g: "gui_cancel (cancel_during (pr i)) st = (st0, t0)"
      by (cases "gui_cancel (cancel_during (pr i)) st")
    have pb: "probe_body (pr i) = Inl e" using Cons.prems(4) 0 by simp
    from get_subtitle_streams_escapes[OF pb Cons.prems(5,6) g, of vf] gs
    have r1: "r1 = Inl e" by simp
    from scan_loop_raise[where pr=pr and i=i, OF Cons.prems(1) gs[unfolded r1]]
    show ?thesis using pf1 0 by simp
  next
    case (Suc k')
    have here: "\<not> cancel_during (pr i) \<and> \<not> probe_escapes (pr i)"
      using Cons.prems(3) Suc by (metis add.right_neutral zero_less_Suc)
    then obtain streams where r1: "r1 = Inr streams" using ge by auto
    have nc1: "\<not> cancel_flag st1" using ge here Cons.prems(1) by simp
    let ?found = "found @ map (\<lambda>stream. (vf, stream)) (filter (\<lambda>stream. language stream = JStr lang) streams)"
    have k': "k' < length rest" using Cons.prems(2) Suc by simp
    have before: "\<forall>q < k'. \<not> cancel_during (pr (Suc i + q)) \<and> \<not> probe_escapes (pr (Suc i + q))"
    proof (intro allI impI)
      fix q assume "q < k'"
      then have "Suc q < k" using Suc by simp
      then show "\<not> cancel_during (pr (Suc i + q)) \<and> \<not> probe_escapes (pr (Suc i + q))"
        using Cons.prems(3) by (metis add_Suc add_Suc_right)
    qed
    have at: "probe_body (pr (Suc i + k')) = Inl e" using Cons.prems(4) Suc by simp
    from Cons.IH[OF nc1 k' before at Cons.prems(5,6), of ?found] obtain st2 t3 where
      rec: "scan_loop pr lang n (Suc i) rest ?found st1 = (Inl e, st2, t3)"
      and p3: "probed_files t3 = take (Suc k') rest" by blast
    from scan_loop_step[where pr=pr and i=i, OF Cons.prems(1) gs[unfolded r1] rec]
    show ?thesis using pf1 p3 Suc by simp
  qed
qed

lemma run_extraction_scan_raise:
  assumes "scan_loop (probes env) lang (length (all_video_files (os_walk env) dirs)) 0
         (all_video_files (os_walk env) dirs) [] st = (Inl e, st1, t1)"
  shows "run_extraction env dirs lang fmt od st =
     (st1, ((st, Log (''Found '' @ str_nat (length (all_video_files (os_walk env) dirs)) @
                      '' video files.'')) # t1) @
           [(st1, Log (''ERROR: An unexpected error occurred: '' @ str_exn e)),
            (st1, FinishExtraction)])"
proof -
  have "all_video_files (os_walk env) dirs \<noteq> []"
  proof
    assume "all_video_files (os_walk env) dirs = []"
    then show False using assms by simp
  qed
  then show ?thesis using assms by (simp add: run_extraction_def run_body_def Let_def)
qed

section \<open>The claims\<close>

text \<open>
  C6. An extraction call whose target output file already exists, with overwrite off,
  returns without success, logs the "already exists" skip, adds one to the skipped
  counter and to no other outcome counter, and never starts the conversion tool.
\<close>

theorem skip_existing_output:
  assumes "makedirs_raises env = None" and "map_of SUBTITLE_FORMATS fmt = Some info"
    and "path_exists env" and "\<not> ow"
  shows "\<exists>st' t. extract_subtitle env v idx lang fmt od ow st = (Inr False, st', t)
     \<and> skipped_extractions st' = skipped_extractions st + 1
     \<and> successful_extractions st' = successful_extractions st
     \<and> failed_extractions st' = failed_extractions st
     \<and> \<not> list_ex is_popen (events t)
     \<and> events t = [MakeDirs (output_dir_of v od),
                    PathExists (output_file_of v lang (extension info) od),
                    Log (''SKIPPED: Subtitle file already exists for '' @ video_basename_of v @
                         '' ['' @ lang @ '']'')]"
  using extract_already_exists[OF assms] by simp

theorem skip_existing_output_witness:
  "makedirs_raises exists_env = None \<and> path_exists exists_env \<and>
   (\<exists>st' t. extract_subtitle exists_env ''/v/a.mkv'' (JNum 2) ''eng'' ''SRT'' None False init
              = (Inr False, st', t)
      \<and> skipped_extractions st' = 1 \<and> successful_extractions st' = 0 \<and> failed_extractions st' = 0
      \<and> \<not> list_ex is_popen (events t))"
proof -
  have h1: "makedirs_raises exists_env = None" and h3: "path_exists exists_env"
    by (simp_all add: exists_env_def ffmpeg_ok_def)
  have h4: "\<not> False" by simp
  from skip_existing_output[OF h1 srt_known h3 h4, of "''/v/a.mkv''" "JNum 2" "''eng''" None init]
  show ?thesis using h1 h3 by (auto simp: init_def)
qed

text \<open>
  C3 (as amended). When the cancellation flag is observed while the tool's diagnostic
  output is being read (the flag is checked after each line read), the subprocess is
  terminated at once, without waiting for it, and the call logs the cancellation and
  returns without success. No outcome counter changes: the failure counter is not
  incremented.
\<close>

theorem cancel_midstream:
  assumes "makedirs_raises env = None" and "map_of SUBTITLE_FORMATS fmt = Some info"
    and "\<not> (path_exists env \<and> \<not> ow)" and "popen_raises env = None"
    and "stderr_lines env \<noteq> []" and "cancel_flag st \<or> pressed_while_streaming env"
  shows "\<exists>st' t t0. extract_subtitle env v idx lang fmt od ow st = (Inr False, st', t)
     \<and> counters st' = counters st \<and> cancel_flag st'
     \<and> t = t0 @ [(st', Terminate),
                  (st', Log (''CANCELLED: Extraction cancelled for '' @ video_basename_of v @
                             '' ['' @ lang @ '']''))]
     \<and> Wait \<notin> set (events t0)"
proof -
  obtain c ls st1 t1 where rs: "read_stderr (stderr_lines env) [] st = (c, ls, st1, t1)"
    by (cases "read_stderr (stderr_lines env) [] st") auto
  have "c" using read_stderr_cancelled[of "stderr_lines env" "[]" st] rs assms(5,6)
    by (auto simp: pressed_while_streaming_def list_ex_iff)
  then have rs': "read_stderr (stderr_lines env) [] st = (True, ls, st1, t1)" using rs by simp
  from read_stderr_terminated[OF rs'] obtain t0 where
    t0: "t1 = t0 @ [(st1, Terminate)]" "\<forall>(s, e) \<in> set t0. \<exists>m. e = Log m" by blast
  note a = read_stderr_state[OF rs']
  let ?cmd = "ffmpeg_cmd ow v idx (ffmpeg_format info) (output_file_of v lang (extension info) od)"
  let ?pre = "[(st, MakeDirs (output_dir_of v od)),
               (st, PathExists (output_file_of v lang (extension info) od)), (st, Popen ?cmd)] @ t0"
  have "extract_subtitle env v idx lang fmt od ow st =
      (Inr False, st1, ?pre @ [(st1, Terminate),
         (st1, Log (''CANCELLED: Extraction cancelled for '' @ video_basename_of v @
                             '' ['' @ lang @ '']''))])"
    using extract_runs_ffmpeg[OF assms(1,2,3) run_ffmpeg_cancelled[OF assms(4) rs']] t0(1)
    by simp
  moreover have "Wait \<notin> set (events ?pre)" using t0(2) by (auto simp: events_def)
  ultimately show ?thesis using a by blast
qed

theorem cancel_midstream_witness:
  "makedirs_raises cancel_env = None \<and> popen_raises cancel_env = None \<and>
   stderr_lines cancel_env \<noteq> [] \<and> pressed_while_streaming cancel_env \<and>
   (\<exists>st' t t0. extract_subtitle cancel_env ''/v/a.mkv'' (JNum 2) ''eng'' ''SRT'' None False init
        = (Inr False, st', t)
      \<and> counters st' = counters init \<and> cancel_flag st'
      \<and> t = t0 @ [(st', Terminate), (st', Log ''CANCELLED: Extraction cancelled for a [eng]'')])"
proof -
  have h: "makedirs_raises cancel_env = None" "\<not> (path_exists cancel_env \<and> \<not> False)"
    "popen_raises cancel_env = None" "stderr_lines cancel_env \<noteq> []"
    "pressed_while_streaming cancel_env"
    by (simp_all add: cancel_env_def ffmpeg_ok_def pressed_while_streaming_def)
  have b: "video_basename_of ''/v/a.mkv'' = ''a''"
    by (simp add: video_basename_of_def basename_def splitext_def sep_def)
  from cancel_midstream[OF h(1) srt_known h(2) h(3) h(4) disjI2[OF h(5)],
      of "''/v/a.mkv''" "JNum 2" "''eng''" None init]
  show ?thesis using h b by auto
qed

theorem cancel_midstream_counterexample:
  "fst (extract_subtitle cancel_env ''/v/a.mkv'' (JNum 2) ''eng'' ''SRT'' None False init) = Inr False
   \<and> Terminate \<in> set (events (snd (snd
        (extract_subtitle cancel_env ''/v/a.mkv'' (JNum 2) ''eng'' ''SRT'' None False init))))
   \<and> failed_extractions (fst (snd
        (extract_subtitle cancel_env ''/v/a.mkv'' (JNum 2) ''eng'' ''SRT'' None False init)))
       \<noteq> failed_extractions init + 1
   \<and> counters (fst (snd
        (extract_subtitle cancel_env ''/v/a.mkv'' (JNum 2) ''eng'' ''SRT'' None False init)))
       = counters init"
  by (simp add: extract_subtitle_def cancel_env_def ffmpeg_ok_def SUBTITLE_FORMATS_def run_ffmpeg_def
        gui_cancel_def cancel_def init_def counters_def Let_def)

text \<open>
  C9. Every extraction call creates the output directory first: the directory creation
  is the first thing the call does and it happens once, before the format name is
  looked up and before the existing-output check. It therefore also happens in calls
  that end with the unknown-format failure or with the already-exists skip, neither of
  which starts the conversion tool.
\<close>

theorem makedirs_comes_first:
  "\<exists>r st' t'. extract_subtitle env v idx lang fmt od ow st =
        (r, st', (st, MakeDirs (output_dir_of v od)) # t')
     \<and> \<not> list_ex is_makedirs (events t')
     \<and> (makedirs_raises env = None \<and> map_of SUBTITLE_FORMATS fmt = None
          \<longrightarrow> r = Inr False \<and> events t' = [Log (''ERROR: Unsupported format '' @ fmt)])
     \<and> (makedirs_raises env = None \<and> map_of SUBTITLE_FORMATS fmt \<noteq> None \<and> path_exists env \<and> \<not> ow
          \<longrightarrow> r = Inr False \<and> \<not> list_ex is_popen (events t')
              \<and> (\<exists>p m. events t' = [PathExists p, Log m]))"
proof (cases "makedirs_raises env")
  case (Some e)
  show ?thesis using extract_makedirs_raises[OF Some] Some by simp
next
  case None
  show ?thesis
  proof (cases "map_of SUBTITLE_FORMATS fmt")
    case n: None
    show ?thesis using extract_unknown_format[OF None n] None n by simp
  next
    case (Some info)
    show ?thesis
    proof (cases "path_exists env \<and> \<not> ow")
      case True
      then show ?thesis using extract_already_exists[OF None Some, where ow=ow] None Some by simp
    next
      case False
      let ?cmd = "ffmpeg_cmd ow v idx (ffmpeg_format info) (output_file_of v lang (extension info) od)"
      obtain r1 st1 t2 where rf:
        "run_ffmpeg env ?cmd (video_basename_of v) lang fmt st = (r1, st1, t2)"
        using prod_cases3 by blast
      from run_ffmpeg_effect[OF rf] obtain t' where t': "t2 = (st, Popen ?cmd) # t'"
         "\<forall>(s, e) \<in> set t'. counters s = counters st \<and> quiet e" by blast
      have "\<not> list_ex is_makedirs (events t')"
        using t'(2) quiet_not by (fastforce simp: list_ex_iff events_def)
      then show ?thesis using extract_runs_ffmpeg[OF None Some False rf] t'(1) False None Some by auto
    qed
  qed
qed

theorem makedirs_comes_first_witness:
  "(makedirs_raises ffmpeg_ok = None \<and> map_of SUBTITLE_FORMATS ''XYZ'' = None) \<and>
   (\<exists>st' t'. extract_subtitle ffmpeg_ok ''/v/a.mkv'' (JNum 2) ''eng'' ''XYZ'' None False init =
        (Inr False, st', (init, MakeDirs ''/v'') # t')
      \<and> events t' = [Log ''ERROR: Unsupported format XYZ'']) \<and>
   (makedirs_raises exists_env = None \<and> map_of SUBTITLE_FORMATS ''SRT'' \<noteq> None \<and>
    path_exists exists_env) \<and>
   (\<exists>st' t' p m. extract_subtitle exists_env ''/v/a.mkv'' (JNum 2) ''eng'' ''SRT'' None False init =
        (Inr False, st', (init, MakeDirs ''/v'') # t')
      \<and> events t' = [PathExists p, Log m])"
proof -
  have h1: "makedirs_raises ffmpeg_ok = None \<and> map_of SUBTITLE_FORMATS ''XYZ'' = None"
    by (simp add: ffmpeg_ok_def SUBTITLE_FORMATS_def)
  have h2: "makedirs_raises exists_env = None \<and> map_of SUBTITLE_FORMATS ''SRT'' \<noteq> None \<and>
      path_exists exists_env \<and> \<not> False"
    by (simp add: exists_env_def ffmpeg_ok_def srt_known)
  have d: "output_dir_of ''/v/a.mkv'' None = ''/v''"
    by (simp add: output_dir_of_def dirname_def sep_def)
  from makedirs_comes_first[of ffmpeg_ok "''/v/a.mkv''" "JNum 2" "''eng''" "''XYZ''" None False init]
    makedirs_comes_first[of exists_env "''/v/a.mkv''" "JNum 2" "''eng''" "''SRT''" None False init]
  show ?thesis using h1 h2 unfolding d by fastforce
qed

text \<open>
  C8. With the directory created and a format of the table with extension \<open>E\<close>, the
  output file of an extraction call for video \<open>v\<close> and language \<open>L\<close> is the path
  obtained by joining the directory (the output directory if one is given, else the
  directory of \<open>v\<close>) with the name made of the base name of \<open>v\<close> without its
  extension, a dot, \<open>L\<close>, a dot and \<open>E\<close>. This is the path whose existence is checked
  and the path handed to the conversion tool. The join puts exactly one separator
  between the two unless the directory is empty or already ends with one.
\<close>

theorem output_path_convention:
  assumes "makedirs_raises env = None" and "map_of SUBTITLE_FORMATS fmt = Some info"
    and "dir = (case od of None \<Rightarrow> dirname v | Some d \<Rightarrow> d)"
    and "name = fst (splitext (basename v)) @ ''.'' @ lang @ ''.'' @ extension info"
  shows "\<exists>r st' t'. extract_subtitle env v idx lang fmt od ow st =
        (r, st', (st, MakeDirs dir) # (st, PathExists (path_join dir name)) # t')
     \<and> (\<forall>s c. (s, Popen c) \<in> set t' \<longrightarrow> last c = Arg (path_join dir name))
     \<and> (dir \<noteq> [] \<and> last dir \<noteq> CHR ''/'' \<longrightarrow> path_join dir name = dir @ ''/'' @ name)"
proof -
  have d: "output_dir_of v od = dir" using assms(3) by (simp add: output_dir_of_def)
  have o: "output_file_of v lang (extension info) od = path_join dir name"
    using assms(3,4) by (simp add: output_file_of_def output_dir_of_def video_basename_of_def)
  have n: "name \<noteq> [] \<longrightarrow> hd name \<noteq> sep"
  proof (cases "fst (splitext (basename v))")
    case Nil
    then show ?thesis using assms(4) by (simp add: sep_def)
  next
    case (Cons c cs)
    have "sep \<notin> set (basename v)"
      by (auto simp: basename_def dest: set_takeWhileD)
    moreover have "c \<in> set (basename v)"
    proof -
      have "c \<in> set (fst (splitext (basename v)))" using Cons by simp
      then show ?thesis
        by (auto simp: splitext_def Let_def basename_def split: if_splits
            dest!: set_takeWhileD set_dropWhileD set_tl_subset)
    qed
    ultimately show ?thesis using Cons assms(4) by auto
  qed
  have lit: "dir \<noteq> [] \<and> last dir \<noteq> CHR ''/'' \<longrightarrow> path_join dir name = dir @ ''/'' @ name"
    using n by (auto simp: path_join_def sep_def)
  show ?thesis
  proof (cases "path_exists env \<and> \<not> ow")
    case True
    then show ?thesis using extract_already_exists[OF assms(1,2), where ow=ow] d o lit by simp
  next
    case False
    let ?cmd = "ffmpeg_cmd ow v idx (ffmpeg_format info) (path_join dir name)"
    obtain r1 st1 t2 where rf:
      "run_ffmpeg env ?cmd (video_basename_of v) lang fmt st = (r1, st1, t2)"
      using prod_cases3 by blast
    from run_ffmpeg_effect[OF rf] obtain t' where t': "t2 = (st, Popen ?cmd) # t'"
       "\<forall>(s, e) \<in> set t'. counters s = counters st \<and> quiet e" by blast
    have "\<forall>s c. (s, Popen c) \<in> set t2 \<longrightarrow> last c = Arg (path_join dir name)"
      using t' by (auto simp: ffmpeg_cmd_def)
    then show ?thesis
      using extract_runs_ffmpeg[OF assms(1,2) False rf[folded o]] d o lit by auto
  qed
qed

theorem output_path_convention_witness:
  "makedirs_raises ffmpeg_ok = None \<and>
   (\<exists>r st' t'. extract_subtitle ffmpeg_ok ''/movies/show/a.b.mkv'' (JNum 2) ''eng'' ''VobSub''
                  None False init =
        (r, st', (init, MakeDirs ''/movies/show'') #
                 (init, PathExists ''/movies/show/a.b.eng.idx'') # t')
      \<and> (\<forall>s c. (s, Popen c) \<in> set t' \<longrightarrow> last c = Arg ''/movies/show/a.b.eng.idx''))"
proof -
  have h1: "makedirs_raises ffmpeg_ok = None" by (simp add: ffmpeg_ok_def)
  have h2: "map_of SUBTITLE_FORMATS ''VobSub'' =
      Some \<lparr>extension = ''idx'', ffmpeg_format = ''dvdsub'', description = ''DVD Subtitles''\<rparr>"
    by (simp add: SUBTITLE_FORMATS_def)
  have h3: "''/movies/show'' = (case None of None \<Rightarrow> dirname ''/movies/show/a.b.mkv'' | Some d \<Rightarrow> d)"
    by (simp add: dirname_def sep_def)
  have h4: "''a.b.eng.idx'' = fst (splitext (basename ''/movies/show/a.b.mkv'')) @ ''.'' @ ''eng'' @ ''.'' @
      extension \<lparr>extension = ''idx'', ffmpeg_format = ''dvdsub'', description = ''DVD Subtitles''\<rparr>"
    by (simp add: basename_def splitext_def sep_def)
  have j: "path_join ''/movies/show'' ''a.b.eng.idx'' = ''/movies/show/a.b.eng.idx''"
    by (simp add: path_join_def sep_def)
  from output_path_convention[OF h1 h2 h3 h4, of "JNum 2" False init]
  show ?thesis using h1 unfolding j by blast
qed

text \<open>
  C1 (as amended). In a run started from the reset state, at every event of the run, and
  so at every progress callback, \<open>processed_streams \<le> total_streams\<close>. If no
  extraction call ends in the "Output file exists" exit of the tool, the three outcome
  counters add up to at most \<open>processed_streams\<close>; if moreover cancel is never
  pressed while the tool's output is being read, they add up to exactly
  \<open>processed_streams\<close>. Under the same two conditions an extraction call that
  returns increments exactly one of the three outcome counters, by one. (A call
  cancelled while streaming increments none.)
\<close>

theorem counters_during_run:
  assumes "run_extraction env dirs lang fmt od (reset st0) = (st', t)" and "(s, e) \<in> set t"
  shows "processed_streams s \<le> total_streams s
     \<and> ((\<forall>q. \<not> exit_exists_race (extracts env q))
          \<longrightarrow> successful_extractions s + failed_extractions s + skipped_extractions s
                \<le> processed_streams s)
     \<and> ((\<forall>q. \<not> exit_exists_race (extracts env q) \<and> \<not> pressed_while_streaming (extracts env q))
          \<longrightarrow> successful_extractions s + failed_extractions s + skipped_extractions s
                = processed_streams s)
     \<and> (\<forall>x v idx ow a b a' ta.
           extract_subtitle x v idx lang fmt od ow a = (Inr b, a', ta)
           \<and> \<not> exit_exists_race x \<and> \<not> pressed_while_streaming x \<and> \<not> cancel_flag a
           \<longrightarrow> (successful_extractions a' = successful_extractions a + 1
                  \<and> failed_extractions a' = failed_extractions a
                  \<and> skipped_extractions a' = skipped_extractions a)
               \<or> (successful_extractions a' = successful_extractions a
                  \<and> failed_extractions a' = failed_extractions a + 1
                  \<and> skipped_extractions a' = skipped_extractions a)
               \<or> (successful_extractions a' = successful_extractions a
                  \<and> failed_extractions a' = failed_extractions a
                  \<and> skipped_extractions a' = skipped_extractions a + 1))"
proof -
  let ?st = "reset st0"
  have call: "\<And>x v idx ow a b a' ta.
           extract_subtitle x v idx lang fmt od ow a = (Inr b, a', ta) \<Longrightarrow>
           \<not> exit_exists_race x \<Longrightarrow> \<not> pressed_while_streaming x \<Longrightarrow> \<not> cancel_flag a \<Longrightarrow>
             (successful_extractions a' = successful_extractions a + 1
                  \<and> failed_extractions a' = failed_extractions a
                  \<and> skipped_extractions a' = skipped_extractions a)
               \<or> (successful_extractions a' = successful_extractions a
                  \<and> failed_extractions a' = failed_extractions a + 1
                  \<and> skipped_extractions a' = skipped_extractions a)
               \<or> (successful_extractions a' = successful_extractions a
                  \<and> failed_extractions a' = failed_extractions a
                  \<and> skipped_extractions a' = skipped_extractions a + 1)"
  proof -
    fix x v idx ow a b a' ta
    assume h: "extract_subtitle x v idx lang fmt od ow a = (Inr b, a', ta)"
      "\<not> exit_exists_race x" "\<not> pressed_while_streaming x" "\<not> cancel_flag a"
    from extract_subtitle_effect[OF h(1)] h(2,3,4)
    have "successful_extractions a \<le> successful_extractions a'"
      "failed_extractions a \<le> failed_extractions a'"
      "skipped_extractions a \<le> skipped_extractions a'"
      "outcome_sum a' = outcome_sum a + 1" by auto
    then show "(successful_extractions a' = successful_extractions a + 1
                  \<and> failed_extractions a' = failed_extractions a
                  \<and> skipped_extractions a' = skipped_extractions a)
               \<or> (successful_extractions a' = successful_extractions a
                  \<and> failed_extractions a' = failed_extractions a + 1
                  \<and> skipped_extractions a' = skipped_extractions a)
               \<or> (successful_extractions a' = successful_extractions a
                  \<and> failed_extractions a' = failed_extractions a
                  \<and> skipped_extractions a' = skipped_extractions a + 1)"
      unfolding outcome_sum_def by linarith
  qed
  have inv: "processed_streams s \<le> total_streams s
     \<and> ((\<forall>q. \<not> exit_exists_race (extracts env q)) \<longrightarrow> outcome_sum s \<le> processed_streams s)
     \<and> ((\<forall>q. \<not> exit_exists_race (extracts env q) \<and> \<not> pressed_while_streaming (extracts env q))
          \<longrightarrow> outcome_sum s = processed_streams s)"
  using assms(1)
  proof (cases rule: run_extraction_cases)
    case (no_files m)
    then have "counters s = (0, 0, 0, 0, 0)" using assms(2) by auto
    then show ?thesis using zero_counters by simp
  next
    case (scan_raise e1 st1 t1 m m')
    note se = scan_loop_effect[OF scan_raise(2)]
    have "counters s = (0, 0, 0, 0, 0)" using assms(2) scan_raise(4) se by auto
    then show ?thesis using zero_counters by simp
  next
    case (no_tasks st1 t1 m m')
    note se = scan_loop_effect[OF no_tasks(2)]
    have "counters st1 = (0, 0, 0, 0, 0)" using se by simp
    then have "counters st' = (0, 0, 0, 0, 0)" using no_tasks(3) by (simp add: counters_def)
    then have "counters s = (0, 0, 0, 0, 0)" using assms(2) no_tasks(4) se by auto
    then show ?thesis using zero_counters by simp
  next
    case (tasks_found tasks st1 t1 r t3 t4 m m')
    note se = scan_loop_effect[OF tasks_found(2)]
    let ?st3 = "st1\<lparr>total_streams := length tasks, processed_streams := 0\<rparr>"
    note le = extract_loop_effect[OF tasks_found(4)]
    have z1: "counters st1 = (0, 0, 0, 0, 0)" using se by simp
    have st3: "processed_streams ?st3 = 0" "total_streams ?st3 = length tasks" "outcome_sum ?st3 = 0"
      using z1 by (simp_all add: counters_def outcome_sum_def)
    have good: "\<And>u. within ?st3 (length tasks) u \<Longrightarrow> processed_streams u \<le> total_streams u"
      by (simp add: within_def)
    have a: "\<And>u. at_most_one_each ?st3 u \<Longrightarrow> outcome_sum u \<le> processed_streams u"
      using st3 by (simp add: at_most_one_each_def)
    have o: "\<And>u. one_each ?st3 u \<Longrightarrow> outcome_sum u = processed_streams u"
      using st3 by (simp add: one_each_def)
    consider (pre) "counters s = (0, 0, 0, 0, 0)"
      | (found) "s = st1\<lparr>total_streams := length tasks\<rparr>"
      | (loop) "(s, e) \<in> set t3" | (post) "s = st'"
      using assms(2) tasks_found(5,6) se by auto
    then show ?thesis
    proof cases
      case pre
      then show ?thesis using zero_counters by simp
    next
      case found
      then show ?thesis using z1 by (simp add: counters_def outcome_sum_def)
    next
      case loop
      then show ?thesis using le good a o by blast
    next
      case post
      then show ?thesis using le good a o by blast
    qed
  qed
  show ?thesis using inv call unfolding outcome_sum_def by blast
qed

theorem counters_during_run_witness:
  "(s_done, UiProgress 1 1 ''Extracting: a.mkv'') \<in>
      set (snd (run_extraction env_ok [''/v''] ''eng'' ''SRT'' None (reset init)))
   \<and> (\<forall>q. \<not> exit_exists_race (extracts env_ok q) \<and> \<not> pressed_while_streaming (extracts env_ok q))
   \<and> extract_subtitle ffmpeg_ok ''/v/a.mkv'' (JNum 2) ''eng'' ''SRT'' None False init
        = (Inr True, init\<lparr>successful_extractions := 1\<rparr>,
           snd (snd (extract_subtitle ffmpeg_ok ''/v/a.mkv'' (JNum 2) ''eng'' ''SRT'' None False init)))
   \<and> \<not> cancel_flag init
   \<and> processed_streams s_done \<le> total_streams s_done
   \<and> successful_extractions s_done + failed_extractions s_done + skipped_extractions s_done
       = processed_streams s_done
   \<and> successful_extractions (init\<lparr>successful_extractions := 1\<rparr>) = successful_extractions init + 1"
proof -
  have mem: "(s_done, UiProgress 1 1 ''Extracting: a.mkv'') \<in>
      set (snd (run_extraction env_ok [''/v''] ''eng'' ''SRT'' None (reset init)))"
    by code_simp
  have run: "run_extraction env_ok [''/v''] ''eng'' ''SRT'' None (reset init) =
      (fst (run_extraction env_ok [''/v''] ''eng'' ''SRT'' None (reset init)),
       snd (run_extraction env_ok [''/v''] ''eng'' ''SRT'' None (reset init)))" by simp
  have quiet_env: "\<forall>q. \<not> exit_exists_race (extracts env_ok q) \<and> \<not> pressed_while_streaming (extracts env_ok q)"
    by (simp add: env_ok_def ffmpeg_ok_def exit_exists_race_def pressed_while_streaming_def)
  have x: "\<not> exit_exists_race ffmpeg_ok \<and> \<not> pressed_while_streaming ffmpeg_ok \<and> \<not> cancel_flag init"
    by (simp add: ffmpeg_ok_def exit_exists_race_def pressed_while_streaming_def init_def)
  have call: "extract_subtitle ffmpeg_ok ''/v/a.mkv'' (JNum 2) ''eng'' ''SRT'' None False init
        = (Inr True, init\<lparr>successful_extractions := 1\<rparr>,
           snd (snd (extract_subtitle ffmpeg_ok ''/v/a.mkv'' (JNum 2) ''eng'' ''SRT'' None False init)))"
    by (simp add: extract_subtitle_def ffmpeg_ok_def SUBTITLE_FORMATS_def run_ffmpeg_def
        after_wait_def gui_cancel_def init_def Let_def)
  from counters_during_run[OF run mem] quiet_env call x
  show ?thesis using mem by (simp add: init_def)
qed

theorem counters_during_run_counterexample:
  "(s_raced, UiProgress 1 1 ''Extracting: a.mkv'') \<in>
      set (snd (run_extraction env_race [''/v''] ''eng'' ''SRT'' None (reset init)))
   \<and> successful_extractions s_raced + failed_extractions s_raced + skipped_extractions s_raced
       \<noteq> processed_streams s_raced
   \<and> (s_cancelled, UiProgress 1 1 ''Extracting: a.mkv'') \<in>
      set (snd (run_extraction env_cancel [''/v''] ''eng'' ''SRT'' None (reset init)))
   \<and> successful_extractions s_cancelled + failed_extractions s_cancelled
        + skipped_extractions s_cancelled \<noteq> processed_streams s_cancelled"
  by code_simp




text \<open>
  C4 (as amended). The enumeration phase concatenates, in the order requested, the video
  files found under each requested directory, with no de-duplication: a file that
  several requested directories yield appears once per directory that yields it, and
  is probed once per appearance. The files probed by a run are always an initial segment
  of this list, and the whole list when the run is not cancelled and no probe raises an
  exception that is not handled per file.
\<close>

theorem no_deduplication:
  assumes "run_extraction env dirs lang fmt od st = (st', t)"
  shows "probed_files t = take (length (probed_files t)) (concat (map (get_video_files (os_walk env)) dirs))
     \<and> (\<not> cancel_flag st \<and> (\<forall>k. \<not> cancel_during (probes env k) \<and> \<not> probe_escapes (probes env k))
          \<longrightarrow> probed_files t = concat (map (get_video_files (os_walk env)) dirs)
              \<and> (\<forall>f. count_list (probed_files t) f =
                       sum_list (map (\<lambda>d. count_list (get_video_files (os_walk env) d) f) dirs)))"
proof -
  let ?vfs = "all_video_files (os_walk env) dirs"
  have A: "probed_files t = take (length (probed_files t)) ?vfs
     \<and> (\<not> cancel_flag st \<and> (\<forall>k. \<not> cancel_during (probes env k) \<and> \<not> probe_escapes (probes env k))
          \<longrightarrow> probed_files t = ?vfs)"
  using assms
  proof (cases rule: run_extraction_cases)
    case (no_files m)
    then show ?thesis by simp
  next
    case (scan_raise e1 st1 t1 m m')
    have "probed_files t = probed_files t1" using scan_raise(4) by simp
    then show ?thesis using scan_loop_probed[OF scan_raise(2)] by simp
  next
    case (no_tasks st1 t1 m m')
    have "probed_files t = probed_files t1" using no_tasks(4) by simp
    then show ?thesis using scan_loop_probed[OF no_tasks(2)] by simp
  next
    case (tasks_found tasks st1 t1 r t3 t4 m m')
    have "\<forall>(s, e) \<in> set t3. \<not> is_probe e" using extract_loop_effect[OF tasks_found(4)] by auto
    then have p3: "probed_files t3 = []" by (rule probed_files_none)
    have "\<forall>(s, e) \<in> set t4. \<not> is_probe e" using no_popen_quiet[OF tasks_found(6)] by auto
    then have p4: "probed_files t4 = []" by (rule probed_files_none)
    have "probed_files t = probed_files t1" using tasks_found(5) p3 p4 by simp
    then show ?thesis using scan_loop_probed[OF tasks_found(2)] by simp
  qed
  have v: "?vfs = concat (map (get_video_files (os_walk env)) dirs)"
    by (simp add: all_video_files_def)
  show ?thesis using A unfolding v by (simp add: count_list_concat o_def)
qed

theorem no_deduplication_witness:
  "\<not> cancel_flag (reset init)
   \<and> (\<forall>k. \<not> cancel_during (probes env_nested k) \<and> \<not> probe_escapes (probes env_nested k))
   \<and> probed_files (snd (run_extraction env_nested [''/v'', ''/v/s''] ''eng'' ''SRT'' None (reset init)))
       = [''/v/s/a.mkv'', ''/v/s/a.mkv'']"
proof -
  have h1: "\<not> cancel_flag (reset init)" by (simp add: reset_def)
  have pb: "probe_body (probe_ok eng_heb) = Inr (probe_streams (probe_ok eng_heb))"
    by code_simp
  have h2: "\<forall>k. \<not> cancel_during (probes env_nested k) \<and> \<not> probe_escapes (probes env_nested k)"
    using pb by (simp add: env_nested_def env_ok_def probe_escapes_def probe_ok_def)
  have run: "run_extraction env_nested [''/v'', ''/v/s''] ''eng'' ''SRT'' None (reset init) =
      (fst (run_extraction env_nested [''/v'', ''/v/s''] ''eng'' ''SRT'' None (reset init)),
       snd (run_extraction env_nested [''/v'', ''/v/s''] ''eng'' ''SRT'' None (reset init)))" by simp
  have files: "concat (map (get_video_files (os_walk env_nested)) [''/v'', ''/v/s''])
      = [''/v/s/a.mkv'', ''/v/s/a.mkv'']"
    by code_simp
  from no_deduplication[OF run] h1 h2 show ?thesis unfolding files by simp
qed

theorem no_deduplication_counterexample:
  "get_video_files (os_walk env_nested) ''/v'' = [''/v/s/a.mkv'']
   \<and> get_video_files (os_walk env_nested) ''/v/s'' = [''/v/s/a.mkv'']
   \<and> all_video_files (os_walk env_nested) [''/v'', ''/v/s''] = [''/v/s/a.mkv'', ''/v/s/a.mkv'']
   \<and> probed_files (snd (run_extraction env_nested [''/v'', ''/v/s''] ''eng'' ''SRT'' None (reset init)))
       = [''/v/s/a.mkv'', ''/v/s/a.mkv'']"
  by code_simp

text \<open>
  C5 (as amended). During the scan phase, after each file whose probe returns, the
  engine emits a progress callback. Its first argument is the number of matching tasks
  found so far, in the files probed up to and including this one. Its second argument
  is the total number of video files enumerated for the run, the same at every
  callback; it is not the number of files probed so far.
\<close>

theorem scan_progress_arguments:
  assumes "scan_loop pr lang (length vfs) 0 vfs [] st = (r, st', t)"
  shows "\<exists>m \<le> length vfs.
      filter is_progress (events t) =
        map (\<lambda>k. UiProgress (found_between pr lang 0 (Suc k)) (length vfs)
                    (''Scanning: '' @ basename (vfs ! k))) [0..<m]
    \<and> (case r of Inr tasks \<Rightarrow> length (probed_files t) = m \<and> length tasks = found_between pr lang 0 m
                | Inl e \<Rightarrow> length (probed_files t) = Suc m)"
proof -
  from scan_loop_progress[OF assms] obtain m where m: "m \<le> length vfs"
    "filter is_progress (events t) =
          map (\<lambda>k. UiProgress (length ([] :: task list) + found_between pr lang 0 (Suc (0 + k))) (length vfs)
                      (''Scanning: '' @ basename (vfs ! k))) [0..<m]"
    "case r of Inr tasks \<Rightarrow> length (probed_files t) = m
                                \<and> length tasks = length ([] :: task list) + found_between pr lang 0 (0 + m)
                  | Inl e \<Rightarrow> length (probed_files t) = Suc m"
    by blast
  show ?thesis
    by (rule exI[of _ m]) (use m in \<open>auto split: sum.splits\<close>)
qed

theorem scan_progress_arguments_witness:
  "\<exists>m \<le> length [''/v/a.mkv'', ''/v/b.mkv''].
      filter is_progress (events (snd (snd
          (scan_loop (probes env_two) ''eng'' (length [''/v/a.mkv'', ''/v/b.mkv'']) 0
             [''/v/a.mkv'', ''/v/b.mkv''] [] init)))) =
        map (\<lambda>k. UiProgress (found_between (probes env_two) ''eng'' 0 (Suc k))
                    (length [''/v/a.mkv'', ''/v/b.mkv''])
                    (''Scanning: '' @ basename ([''/v/a.mkv'', ''/v/b.mkv''] ! k))) [0..<m]
    \<and> (case fst (scan_loop (probes env_two) ''eng'' (length [''/v/a.mkv'', ''/v/b.mkv'']) 0
             [''/v/a.mkv'', ''/v/b.mkv''] [] init) of
         Inr tasks \<Rightarrow> length (probed_files (snd (snd
          (scan_loop (probes env_two) ''eng'' (length [''/v/a.mkv'', ''/v/b.mkv'']) 0
             [''/v/a.mkv'', ''/v/b.mkv''] [] init)))) = m
            \<and> length tasks = found_between (probes env_two) ''eng'' 0 m
       | Inl e \<Rightarrow> length (probed_files (snd (snd
          (scan_loop (probes env_two) ''eng'' (length [''/v/a.mkv'', ''/v/b.mkv'']) 0
             [''/v/a.mkv'', ''/v/b.mkv''] [] init)))) = Suc m)"
proof -
  have run: "scan_loop (probes env_two) ''eng'' (length [''/v/a.mkv'', ''/v/b.mkv'']) 0
             [''/v/a.mkv'', ''/v/b.mkv''] [] init =
     (fst (scan_loop (probes env_two) ''eng'' (length [''/v/a.mkv'', ''/v/b.mkv'']) 0
             [''/v/a.mkv'', ''/v/b.mkv''] [] init),
      fst (snd (scan_loop (probes env_two) ''eng'' (length [''/v/a.mkv'', ''/v/b.mkv'']) 0
             [''/v/a.mkv'', ''/v/b.mkv''] [] init)),
      snd (snd (scan_loop (probes env_two) ''eng'' (length [''/v/a.mkv'', ''/v/b.mkv'']) 0
             [''/v/a.mkv'', ''/v/b.mkv''] [] init)))" by simp
  show ?thesis by (rule scan_progress_arguments[OF run])
qed

theorem scan_progress_arguments_counterexample:
  "all_video_files (os_walk env_two) [''/v''] = [''/v/a.mkv'', ''/v/b.mkv'']
   \<and> take 3 (events (snd (run_extraction env_two [''/v''] ''eng'' ''SRT'' None (reset init))))
       = [Log ''Found 2 video files.'', RunFfprobe ''/v/a.mkv'', UiProgress 1 2 ''Scanning: a.mkv'']"
  by code_simp

text \<open>
  C7 (as amended). When the probe of a file raises \<^verbatim>\<open>SubprocessError\<close>, or its
  output cannot be parsed as JSON, the probe contributes no subtitle stream for that
  file, an error is logged, and the scan goes on with the remaining files, the list of
  tasks found so far unchanged. Any other exception raised while probing (the tool
  cannot be started, or the JSON does not have the expected shape) is not handled per
  file: the files after that one are not probed, no extraction is attempted, and the
  run ends by logging the exception as an unexpected error.
\<close>

theorem probe_failure_is_absorbed:
  "(\<not> cancel_flag st \<and>
    (probe_body (pr i) = Inl (SubprocessError m) \<or> probe_body (pr i) = Inl (JSONDecodeError m))
    \<longrightarrow> (\<exists>st1 t1 msg.
      get_subtitle_streams (pr i) vf st = (Inr [], st1, t1 @ [(st1, Log msg)])
    \<and> startswith msg ''ERROR: Failed to ''
    \<and> scan_loop pr lang n i (vf # rest) found st =
        (case scan_loop pr lang n (Suc i) rest found st1 of
           (r, st2, t3) \<Rightarrow>
             (r, st2, t1 @ [(st1, Log msg),
                            (st1, UiProgress (length found) n (''Scanning: '' @ basename vf))] @ t3))))
   \<and> (\<not> cancel_flag st0 \<and> k < length (all_video_files (os_walk env) dirs)
      \<and> (\<forall>q < k. \<not> cancel_during (probes env q) \<and> \<not> probe_escapes (probes env q))
      \<and> probe_body (probes env k) = Inl e
      \<and> (\<forall>m. e \<noteq> SubprocessError m) \<and> (\<forall>m. e \<noteq> JSONDecodeError m)
    \<longrightarrow> (\<exists>st1 t0.
      run_extraction env dirs lang fmt od st0 =
        (st1, t0 @ [(st1, Log (''ERROR: An unexpected error occurred: '' @ str_exn e)),
                    (st1, FinishExtraction)])
    \<and> probed_files t0 = take (Suc k) (all_video_files (os_walk env) dirs)
    \<and> \<not> list_ex is_makedirs (events t0) \<and> \<not> list_ex is_popen (events t0)))"
proof (intro conjI impI)
  assume h: "\<not> cancel_flag st \<and>
    (probe_body (pr i) = Inl (SubprocessError m) \<or> probe_body (pr i) = Inl (JSONDecodeError m))"
  obtain st1 t0 where g: "gui_cancel (cancel_during (pr i)) st = (st1, t0)"
    by (cases "gui_cancel (cancel_during (pr i)) st")
  from h have h1: "probe_body (pr i) = Inl (SubprocessError m) \<or> probe_body (pr i) = Inl (JSONDecodeError m)"
    and h2: "\<not> cancel_flag st" by simp_all
  from get_subtitle_streams_caught[OF h1 g, of vf] obtain msg where
    gs: "get_subtitle_streams (pr i) vf st = (Inr [], st1, (st, RunFfprobe vf) # t0 @ [(st1, Log msg)])"
    and sw: "startswith msg ''ERROR: Failed to ''" by blast
  obtain r st2 t3 where rec: "scan_loop pr lang n (Suc i) rest found st1 = (r, st2, t3)"
    using prod_cases3 by blast
  have rec': "scan_loop pr lang n (Suc i) rest
       (found @ map (Pair vf) (filter (\<lambda>stream. language stream = JStr lang) [])) st1 = (r, st2, t3)"
    using rec by simp
  from scan_loop_step[where pr=pr and i=i, OF h2 gs rec']
  have "scan_loop pr lang n i (vf # rest) found st =
      (r, st2, ((st, RunFfprobe vf) # t0) @ [(st1, Log msg),
                            (st1, UiProgress (length found) n (''Scanning: '' @ basename vf))] @ t3)"
    by simp
  then show "\<exists>st1 t1 msg.
      get_subtitle_streams (pr i) vf st = (Inr [], st1, t1 @ [(st1, Log msg)])
    \<and> startswith msg ''ERROR: Failed to ''
    \<and> scan_loop pr lang n i (vf # rest) found st =
        (case scan_loop pr lang n (Suc i) rest found st1 of
           (r, st2, t3) \<Rightarrow>
             (r, st2, t1 @ [(st1, Log msg),
                            (st1, UiProgress (length found) n (''Scanning: '' @ basename vf))] @ t3))"
    using gs sw rec
    by (intro exI[of _ st1] exI[of _ "(st, RunFfprobe vf) # t0"] exI[of _ msg]) simp
next
  let ?vfs = "all_video_files (os_walk env) dirs"
  assume h: "\<not> cancel_flag st0 \<and> k < length ?vfs
      \<and> (\<forall>q < k. \<not> cancel_during (probes env q) \<and> \<not> probe_escapes (probes env q))
      \<and> probe_body (probes env k) = Inl e
      \<and> (\<forall>m. e \<noteq> SubprocessError m) \<and> (\<forall>m. e \<noteq> JSONDecodeError m)"
  then have h1: "\<not> cancel_flag st0" and h2: "k < length ?vfs"
    and h3: "\<forall>q < k. \<not> cancel_during (probes env (0 + q)) \<and> \<not> probe_escapes (probes env (0 + q))"
    and h4: "probe_body (probes env (0 + k)) = Inl e"
    and h5: "\<forall>m. e \<noteq> SubprocessError m" and h6: "\<forall>m. e \<noteq> JSONDecodeError m" by simp_all
  from scan_loop_escape[OF h1 h2 h3 h4 h5 h6, of lang "length ?vfs" "[]"] obtain st1 t1 where
    sc: "scan_loop (probes env) lang (length ?vfs) 0 ?vfs [] st0 = (Inl e, st1, t1)"
    and pf: "probed_files t1 = take (Suc k) ?vfs" by blast
  let ?t0 = "(st0, Log (''Found '' @ str_nat (length ?vfs) @ '' video files.'')) # t1"
  note run = run_extraction_scan_raise[OF sc, of fmt od]
  have q: "\<forall>(s, e) \<in> set ?t0. \<not> is_makedirs e \<and> \<not> is_popen e"
    using scan_loop_effect[OF sc] by auto
  have "\<not> list_ex is_makedirs (events ?t0)" "\<not> list_ex is_popen (events ?t0)"
    using q unfolding list_ex_events by blast+
  moreover have "probed_files ?t0 = take (Suc k) ?vfs" using pf by simp
  ultimately show "\<exists>st1 t0.
      run_extraction env dirs lang fmt od st0 =
        (st1, t0 @ [(st1, Log (''ERROR: An unexpected error occurred: '' @ str_exn e)),
                    (st1, FinishExtraction)])
    \<and> probed_files t0 = take (Suc k) ?vfs
    \<and> \<not> list_ex is_makedirs (events t0) \<and> \<not> list_ex is_popen (events t0)"
    using run by blast
qed

theorem probe_failure_is_absorbed_witness:
  "(\<not> cancel_flag init \<and>
    probe_body (probes env_nojson 0) = Inl (JSONDecodeError ''Expecting value''))
   \<and> (\<exists>st1 t1 msg.
      get_subtitle_streams (probes env_nojson 0) ''/v/a.mkv'' init = (Inr [], st1, t1 @ [(st1, Log msg)])
    \<and> startswith msg ''ERROR: Failed to ''
    \<and> scan_loop (probes env_nojson) ''eng'' 2 0 (''/v/a.mkv'' # [''/v/b.mkv'']) [] init =
        (case scan_loop (probes env_nojson) ''eng'' 2 (Suc 0) [''/v/b.mkv''] [] st1 of
           (r, st2, t3) \<Rightarrow>
             (r, st2, t1 @ [(st1, Log msg),
                            (st1, UiProgress (length ([] :: task list)) 2
                                    (''Scanning: '' @ basename ''/v/a.mkv''))] @ t3)))
   \<and> probed_files (snd (run_extraction env_nojson [''/v''] ''eng'' ''SRT'' None (reset init)))
       = [''/v/a.mkv'', ''/v/b.mkv'']
   \<and> (\<not> cancel_flag (reset init) \<and> 0 < length (all_video_files (os_walk env_oserror) [''/v''])
      \<and> probe_body (probes env_oserror 0) = Inl (OSError ''[Errno 2] No such file or directory: ffprobe''))
   \<and> (\<exists>st1 t0.
      run_extraction env_oserror [''/v''] ''eng'' ''SRT'' None (reset init) =
        (st1, t0 @ [(st1, Log (''ERROR: An unexpected error occurred: '' @
                                 str_exn (OSError ''[Errno 2] No such file or directory: ffprobe''))),
                    (st1, FinishExtraction)])
    \<and> probed_files t0 = take (Suc 0) (all_video_files (os_walk env_oserror) [''/v''])
    \<and> \<not> list_ex is_makedirs (events t0) \<and> \<not> list_ex is_popen (events t0))
   \<and> take (Suc 0) (all_video_files (os_walk env_oserror) [''/v'']) = [''/v/a.mkv'']"
proof -
  have h1: "probe_body (probes env_nojson 0) = Inl (JSONDecodeError ''Expecting value'')"
    by (simp add: env_nojson_def env_two_def env_ok_def probe_nojson_def probe_body_def)
  have h2: "\<not> cancel_flag init" by (simp add: init_def)
  have p: "probed_files (snd (run_extraction env_nojson [''/v''] ''eng'' ''SRT'' None (reset init)))
       = [''/v/a.mkv'', ''/v/b.mkv'']" by code_simp
  have g1: "\<not> cancel_flag (reset init)" by (simp add: reset_def)
  have files: "all_video_files (os_walk env_oserror) [''/v''] = [''/v/a.mkv'', ''/v/b.mkv'']"
    by code_simp
  have g2: "0 < length (all_video_files (os_walk env_oserror) [''/v''])" unfolding files by simp
  have g3: "probe_body (probes env_oserror 0) = Inl (OSError ''[Errno 2] No such file or directory: ffprobe'')"
    by (simp add: env_oserror_def env_two_def env_ok_def probe_oserror_def probe_body_def)
  have g4: "\<forall>q < (0::nat). \<not> cancel_during (probes env_oserror q) \<and> \<not> probe_escapes (probes env_oserror q)"
    by simp
  have g5: "(\<forall>m. OSError ''[Errno 2] No such file or directory: ffprobe'' \<noteq> SubprocessError m)
      \<and> (\<forall>m. OSError ''[Errno 2] No such file or directory: ffprobe'' \<noteq> JSONDecodeError m)"
    by simp
  have t: "take (Suc 0) (all_video_files (os_walk env_oserror) [''/v'']) = [''/v/a.mkv'']"
    unfolding files by simp
  note inst = probe_failure_is_absorbed[where pr="probes env_nojson" and i=0 and st=init
      and m="''Expecting value''" and vf="''/v/a.mkv''" and lang="''eng''" and n=2
      and rest="[''/v/b.mkv'']" and found="[]" and st0="reset init" and k=0 and env=env_oserror
      and dirs="[''/v'']" and e="OSError ''[Errno 2] No such file or directory: ffprobe''"
      and fmt="''SRT''" and od=None]
  from inst have A: "\<exists>st1 t1 msg.
      get_subtitle_streams (probes env_nojson 0) ''/v/a.mkv'' init = (Inr [], st1, t1 @ [(st1, Log msg)])
    \<and> startswith msg ''ERROR: Failed to ''
    \<and> scan_loop (probes env_nojson) ''eng'' 2 0 (''/v/a.mkv'' # [''/v/b.mkv'']) [] init =
        (case scan_loop (probes env_nojson) ''eng'' 2 (Suc 0) [''/v/b.mkv''] [] st1 of
           (r, st2, t3) \<Rightarrow>
             (r, st2, t1 @ [(st1, Log msg),
                            (st1, UiProgress (length ([] :: task list)) 2
                                    (''Scanning: '' @ basename ''/v/a.mkv''))] @ t3))"
    using h1 h2 by blast
  from inst have B: "\<exists>st1 t0.
      run_extraction env_oserror [''/v''] ''eng'' ''SRT'' None (reset init) =
        (st1, t0 @ [(st1, Log (''ERROR: An unexpected error occurred: '' @
                                 str_exn (OSError ''[Errno 2] No such file or directory: ffprobe''))),
                    (st1, FinishExtraction)])
    \<and> probed_files t0 = take (Suc 0) (all_video_files (os_walk env_oserror) [''/v''])
    \<and> \<not> list_ex is_makedirs (events t0) \<and> \<not> list_ex is_popen (events t0)"
    using g1 g2 g3 g4 g5 by blast
  show ?thesis using A B h1 h2 p g1 g2 g3 t by blast
qed

theorem probe_failure_is_absorbed_counterexample:
  "probe_body probe_oserror = Inl (OSError ''[Errno 2] No such file or directory: ffprobe'')
   \<and> all_video_files (os_walk env_oserror) [''/v''] = [''/v/a.mkv'', ''/v/b.mkv'']
   \<and> events (snd (run_extraction env_oserror [''/v''] ''eng'' ''SRT'' None (reset init)))
       = [Log ''Found 2 video files.'', RunFfprobe ''/v/a.mkv'',
          Log ''ERROR: An unexpected error occurred: [Errno 2] No such file or directory: ffprobe'',
          FinishExtraction]
   \<and> probe_body probe_badshape = Inl (no_get (JNum 5))
   \<and> events (snd (run_extraction env_badshape [''/v''] ''eng'' ''SRT'' None (reset init)))
       = [Log ''Found 2 video files.'', RunFfprobe ''/v/a.mkv'',
          Log (''ERROR: An unexpected error occurred: '' @ quoted ''int'' @
               '' object has no attribute '' @ quoted ''get''),
          FinishExtraction]"
  by code_simp

text \<open>
  C10. \<open>cancel\<close> sets the cancellation flag and only \<open>reset\<close> clears it: a probe, an
  extraction call and a whole run all leave a set flag set. A run started with the flag
  set stops at its first checkpoint: it probes no file, creates no directory, starts
  no tool, emits no progress callback and processes no task.
\<close>

theorem cancel_flag_sticky:
  "cancel_flag (fst (cancel st)) \<and> \<not> cancel_flag (reset st)
   \<and> (cancel_flag st \<longrightarrow>
        cancel_flag (fst (snd (get_subtitle_streams penv vf st)))
      \<and> cancel_flag (fst (snd (extract_subtitle xenv vf idx lang fmt od ow st)))
      \<and> cancel_flag (fst (run_extraction env dirs lang fmt od st))
      \<and> \<not> list_ex is_probe (events (snd (run_extraction env dirs lang fmt od st)))
      \<and> \<not> list_ex is_makedirs (events (snd (run_extraction env dirs lang fmt od st)))
      \<and> \<not> list_ex is_popen (events (snd (run_extraction env dirs lang fmt od st)))
      \<and> \<not> list_ex is_progress (events (snd (run_extraction env dirs lang fmt od st)))
      \<and> processed_streams (fst (run_extraction env dirs lang fmt od st)) = processed_streams st)"
proof -
  have a: "cancel_flag (fst (cancel st)) \<and> \<not> cancel_flag (reset st)"
    by (simp add: cancel_def reset_def Let_def)
  have b: "cancel_flag (fst (snd (get_subtitle_streams penv vf st)))" if c: "cancel_flag st"
  proof -
    obtain r st1 t1 where gs: "get_subtitle_streams penv vf st = (r, st1, t1)"
      using prod_cases3 by blast
    show ?thesis using get_subtitle_streams_effect[OF gs] gs c by simp
  qed
  have c: "cancel_flag (fst (snd (extract_subtitle xenv vf idx lang fmt od ow st)))" if c: "cancel_flag st"
  proof -
    obtain r st1 t1 where es: "extract_subtitle xenv vf idx lang fmt od ow st = (r, st1, t1)"
      using prod_cases3 by blast
    show ?thesis using extract_subtitle_effect[OF es] es c by simp
  qed
  have d: "cancel_flag (fst (run_extraction env dirs lang fmt od st))
      \<and> \<not> list_ex is_probe (events (snd (run_extraction env dirs lang fmt od st)))
      \<and> \<not> list_ex is_makedirs (events (snd (run_extraction env dirs lang fmt od st)))
      \<and> \<not> list_ex is_popen (events (snd (run_extraction env dirs lang fmt od st)))
      \<and> \<not> list_ex is_progress (events (snd (run_extraction env dirs lang fmt od st)))
      \<and> processed_streams (fst (run_extraction env dirs lang fmt od st)) = processed_streams st"
    if c: "cancel_flag st"
  proof -
    obtain st' t where run: "run_extraction env dirs lang fmt od st = (st', t)"
      by (cases "run_extraction env dirs lang fmt od st")
    note sc = scan_loop_cancelled[OF c]
    have "cancel_flag st' \<and> processed_streams st' = processed_streams st
        \<and> (\<forall>(s, e) \<in> set t. (\<exists>m. e = Log m) \<or> e = FinishExtraction)"
      using run
    proof (cases rule: run_extraction_cases)
      case (no_files m)
      then show ?thesis using c by auto
    next
      case (scan_raise e1 st1 t1 m m')
      then show ?thesis using sc by simp
    next
      case (no_tasks st1 t1 m m')
      then show ?thesis using sc c by auto
    next
      case (tasks_found tasks st1 t1 r t3 t4 m m')
      then show ?thesis using sc by simp
    qed
    then have "cancel_flag st'" "processed_streams st' = processed_streams st"
      "\<forall>(s, e) \<in> set t. \<not> is_probe e" "\<forall>(s, e) \<in> set t. \<not> is_makedirs e"
      "\<forall>(s, e) \<in> set t. \<not> is_popen e" "\<forall>(s, e) \<in> set t. \<not> is_progress e"
      by auto
    then show ?thesis using run list_ex_none by simp
  qed
  show ?thesis using a b c d by blast
qed

theorem cancel_flag_sticky_witness:
  "cancel_flag init_cancelled
   \<and> cancel_flag (fst (run_extraction env_ok [''/v''] ''eng'' ''SRT'' None init_cancelled))
   \<and> \<not> list_ex is_probe (events (snd (run_extraction env_ok [''/v''] ''eng'' ''SRT'' None init_cancelled)))
   \<and> \<not> list_ex is_makedirs (events (snd (run_extraction env_ok [''/v''] ''eng'' ''SRT'' None init_cancelled)))
   \<and> all_video_files (os_walk env_ok) [''/v''] = [''/v/a.mkv'']"
proof -
  have h: "cancel_flag init_cancelled" by (simp add: init_cancelled_def)
  have f: "all_video_files (os_walk env_ok) [''/v''] = [''/v/a.mkv'']" by code_simp
  from cancel_flag_sticky[where st=init_cancelled and env=env_ok and dirs="[''/v'']"
      and lang="''eng''" and fmt="''SRT''" and od=None] h f
  show ?thesis by blast
qed

end
